theory Spec2Isabelle
  imports Complex_Main "HOL-Library.AList" "HOL-Library.Sublist"
begin

section \<open>Python values and built-ins used by the module\<close>

text \<open>
  The module is Python. Its strings are modelled as \<open>string\<close>, a \<open>char\<close> being a code
  point below 256; its unbounded integers as \<open>int\<close>. An exception is a value of \<open>exn\<close>;
  a call that can raise returns \<open>exn + 'a\<close> with \<open>Inl\<close> for the raised exception.

  The calls of the client library (building the service object, executing a request)
  fail with exceptions of that library. \<open>HttpError reason\<close> is its
  \<^verbatim>\<open>googleapiclient.errors.HttpError\<close>, raised for an error response of the service such
  as a rate limit; this is the class that line 12 imports as \<^verbatim>\<open>HttpError\<close> and that the
  module never names again. \<open>TransportError\<close> is any other failure of the call.
\<close>

datatype service_error = HttpError string | TransportError string

text \<open>
  \<open>HTTPError\<close> is an instance of the class that line 7 imports from \<^verbatim>\<open>urllib.error\<close> and
  that the clause \<^verbatim>\<open>except HTTPError as error\<close> of \<open>get_dataframes\<close> names. An
  \<open>HttpError\<close> of the client library is not an instance of it. \<open>Raised err\<close> is an
  exception of the client library passing through the module.
\<close>

datatype exn =
    HTTPError
  | Raised service_error
  | SampledDataError
  | ValueError
  | TypeError
  | IndexError
  | AttributeError
  | OverflowError

text \<open>
  \<open>FloatOf s\<close> is the float that \<^verbatim>\<open>float(s)\<close> returns for a string \<open>s\<close> that \<^verbatim>\<open>float\<close>
  accepts. The float is kept by the string it was read from: its rounding to binary64
  and its overflow to an infinity are those of \<^verbatim>\<open>float\<close>, and two strings may give the
  same float.
\<close>

datatype pyfloat = FloatOf string

datatype pyval = PyStr string | PyInt int | PyFloat pyfloat

definition is_digit :: "char \<Rightarrow> bool" where
  "is_digit c = (48 \<le> (of_char c :: nat) \<and> (of_char c :: nat) \<le> 57)"

definition digit_val :: "char \<Rightarrow> nat" where
  "digit_val c = (of_char c :: nat) - 48"

text \<open>
  The blanks that \<^verbatim>\<open>int\<close> and \<^verbatim>\<open>float\<close> drop at both ends of their argument: tab, LF,
  VT, FF, CR and space, and NEL (0x85) and NBSP (0xA0), which they read as spaces. The
  separators 0x1C to 0x1F are no blanks for them.
\<close>

definition is_space :: "char \<Rightarrow> bool" where
  "is_space c =
     ((9 \<le> (of_char c :: nat) \<and> (of_char c :: nat) \<le> 13)
      \<or> (of_char c :: nat) = 32 \<or> (of_char c :: nat) = 133 \<or> (of_char c :: nat) = 160)"

definition py_strip :: "string \<Rightarrow> string" where
  "py_strip s = rev (dropWhile is_space (rev (dropWhile is_space s)))"

text \<open>
  Both \<^verbatim>\<open>int(s)\<close> and \<^verbatim>\<open>float(s)\<close> allow single underscores between digits and
  nowhere else. \<open>drop_underscores prev s\<close> removes them, or fails; \<open>prev\<close> is the
  character before \<open>s\<close>.
\<close>

fun drop_underscores :: "char option \<Rightarrow> string \<Rightarrow> string option" where
  "drop_underscores prev [] =
     (if prev = Some (CHR ''_'') then None else Some [])"
| "drop_underscores prev (c # cs) =
     (if c = CHR ''_'' then
        (case prev of
           None \<Rightarrow> None
         | Some p \<Rightarrow> if is_digit p then drop_underscores (Some c) cs else None)
      else if prev = Some (CHR ''_'') \<and> \<not> is_digit c then None
      else map_option ((#) c) (drop_underscores (Some c) cs))"

fun split_sign :: "string \<Rightarrow> bool \<times> string" where
  "split_sign [] = (False, [])"
| "split_sign (c # cs) =
     (if c = CHR ''-'' then (True, cs)
      else if c = CHR ''+'' then (False, cs)
      else (False, c # cs))"

definition nat_of_digits :: "string \<Rightarrow> nat" where
  "nat_of_digits ds = foldl (\<lambda>acc c. 10 * acc + digit_val c) 0 ds"

text \<open>
  \<^verbatim>\<open>int(s)\<close> in base 10; \<open>None\<close> is ValueError. A string of more than 4300 digits is
  refused (the limit of CPython 3.11 on the conversion of strings to integers).
\<close>

definition py_int :: "string \<Rightarrow> int option" where
  "py_int s =
     (case split_sign (py_strip s) of
        (neg, body) \<Rightarrow>
          (case drop_underscores None body of
             None \<Rightarrow> None
           | Some ds \<Rightarrow>
               if ds \<noteq> [] \<and> list_all is_digit ds \<and> length ds \<le> 4300
               then Some (if neg then - int (nat_of_digits ds) else int (nat_of_digits ds))
               else None))"

definition to_lower :: "char \<Rightarrow> char" where
  "to_lower c =
     (if 65 \<le> (of_char c :: nat) \<and> (of_char c :: nat) \<le> 90
      then char_of ((of_char c :: nat) + 32) else c)"

text \<open>The exponent part of a float literal: empty, or e/E, an optional sign and digits.\<close>

definition is_exponent :: "string \<Rightarrow> bool" where
  "is_exponent s =
     (case s of
        [] \<Rightarrow> True
      | c # cs \<Rightarrow>
          (c = CHR ''e'' \<or> c = CHR ''E'')
          \<and> snd (split_sign cs) \<noteq> [] \<and> list_all is_digit (snd (split_sign cs)))"

text \<open>
  A decimal float literal without sign: digits, an optional point with digits, at
  least one digit in all, and an optional exponent.
\<close>

definition is_decimal :: "string \<Rightarrow> bool" where
  "is_decimal s =
     (let ip = takeWhile is_digit s;
          r1 = dropWhile is_digit s;
          fp = (case r1 of
                  [] \<Rightarrow> []
                | c # cs \<Rightarrow> if c = CHR ''.'' then takeWhile is_digit cs else []);
          r2 = (case r1 of
                  [] \<Rightarrow> []
                | c # cs \<Rightarrow> if c = CHR ''.'' then dropWhile is_digit cs else r1)
      in (ip \<noteq> [] \<or> fp \<noteq> []) \<and> is_exponent r2)"

text \<open>The strings that \<^verbatim>\<open>float\<close> accepts: on the others it raises ValueError.\<close>

definition float_accepts :: "string \<Rightarrow> bool" where
  "float_accepts s =
     (case drop_underscores None (py_strip s) of
        None \<Rightarrow> False
      | Some t \<Rightarrow>
          (let body = snd (split_sign t)
           in map to_lower body = ''inf'' \<or> map to_lower body = ''infinity''
              \<or> map to_lower body = ''nan'' \<or> is_decimal body))"

text \<open>\<^verbatim>\<open>float(s)\<close>; \<open>None\<close> is ValueError.\<close>

definition py_float :: "string \<Rightarrow> pyfloat option" where
  "py_float s = (if float_accepts s then Some (FloatOf s) else None)"

text \<open>\<^verbatim>\<open>str(i)\<close> for an integer.\<close>

definition digit_char :: "nat \<Rightarrow> char" where
  "digit_char d = ''0123456789'' ! d"

fun str_nat :: "nat \<Rightarrow> string" where
  "str_nat n =
     (if n < 10 then [digit_char n]
      else str_nat (n div 10) @ [digit_char (n mod 10)])"

definition str_int :: "int \<Rightarrow> string" where
  "str_int i = (if i < 0 then CHR ''-'' # str_nat (nat (- i)) else str_nat (nat i))"

text \<open>
  \<^verbatim>\<open>s.replace(old, new)\<close>: scanning from the left, every occurrence of \<open>old\<close> that
  does not overlap an earlier one is replaced.
\<close>

fun str_replace :: "string \<Rightarrow> string \<Rightarrow> string \<Rightarrow> string" where
  "str_replace old new [] = (if old = [] then new else [])"
| "str_replace old new (c # cs) =
     (if old = [] then new @ c # str_replace old new cs
      else if prefix old (c # cs)
           then new @ str_replace old new (drop (length old) (c # cs))
           else c # str_replace old new cs)"

text \<open>\<^verbatim>\<open>old in s\<close> for strings.\<close>

fun str_contains :: "string \<Rightarrow> string \<Rightarrow> bool" where
  "str_contains old [] = (old = [])"
| "str_contains old (c # cs) = (prefix old (c # cs) \<or> str_contains old cs)"

text \<open>
  A \<^verbatim>\<open>dict\<close> keeps its keys in insertion order; assigning to a key that is present
  replaces the value in place, assigning to a new key appends it. This is
  \<open>AList.update\<close> on an association list. A key is \<open>Some s\<close> for the string \<open>s\<close> and
  \<open>None\<close> for Python's \<^verbatim>\<open>None\<close>, which \<^verbatim>\<open>metricHeader.get('name')\<close> yields when the
  entry has no name.
\<close>

type_synonym pydict = "(string option \<times> pyval) list"

text \<open>\<^verbatim>\<open>d.get(k, default)\<close> on a field that may be absent.\<close>

definition get_or :: "'a option \<Rightarrow> 'a \<Rightarrow> 'a" where
  "get_or field dflt = (case field of None \<Rightarrow> dflt | Some v \<Rightarrow> v)"

section \<open>The report response\<close>

text \<open>
  The JSON response of the reporting service, as \<open>get_ga_data\<close> and \<open>get_response\<close>
  read it. Each record is one JSON object; a field is \<open>None\<close> when the key is absent.
  Field names are the JSON keys, prefixed where two objects share a key:
  \<open>rp_\<close> marks the keys of a report, \<open>mh_name\<close> is \<^verbatim>\<open>name\<close> of a metric header entry, \<open>dr_values\<close> is \<^verbatim>\<open>values\<close> of a
  date-range value set, \<open>row_dimensions\<close> and \<open>row_metrics\<close> are \<^verbatim>\<open>dimensions\<close> and
  \<^verbatim>\<open>metrics\<close> of a row, \<open>ch_dimensions\<close> is \<^verbatim>\<open>dimensions\<close> of the column header.
\<close>

record metricHeaderEntry =
  mh_name :: "string option"

record dateRangeValues =
  dr_values :: "string list option"

record reportRow =
  row_dimensions :: "string list option"
  row_metrics :: "dateRangeValues list option"

record metricHeader =
  metricHeaderEntries :: "metricHeaderEntry list option"

record columnHeader =
  ch_dimensions :: "string list option"
  ch_metricHeader :: "metricHeader option"

record reportData =
  rows :: "reportRow list option"
  rowCount :: "int option"
  samplesReadCounts :: "string list option"
  samplingSpaceSizes :: "string list option"

record report =
  rp_columnHeader :: "columnHeader option"
  rp_data :: "reportData option"
  rp_nextPageToken :: "string option"

record response =
  reports :: "report list option"

text \<open>The empty JSON object \<^verbatim>\<open>{}\<close> used as a default.\<close>

definition empty_columnHeader :: columnHeader where
  "empty_columnHeader = \<lparr>ch_dimensions = None, ch_metricHeader = None\<rparr>"

definition empty_metricHeader :: metricHeader where
  "empty_metricHeader = \<lparr>metricHeaderEntries = None\<rparr>"

definition empty_reportData :: reportData where
  "empty_reportData =
     \<lparr>rows = None, rowCount = None, samplesReadCounts = None, samplingSpaceSizes = None\<rparr>"

section \<open>get_ga_data\<close>

text \<open>
  The branch of lines 101 to 104: \<^verbatim>\<open>float(value)\<close> when the string has a comma or a
  point, \<^verbatim>\<open>int(value)\<close> otherwise; either may raise ValueError.
\<close>

definition has_separator :: "string \<Rightarrow> bool" where
  "has_separator v = (CHR '','' \<in> set v \<or> CHR ''.'' \<in> set v)"

definition convert_metric :: "string \<Rightarrow> exn + pyval" where
  "convert_metric v =
     (if has_separator v
      then (case py_float v of None \<Rightarrow> Inl ValueError | Some f \<Rightarrow> Inr (PyFloat f))
      else (case py_int v of None \<Rightarrow> Inl ValueError | Some n \<Rightarrow> Inr (PyInt n)))"

text \<open>The loop of line 96 over \<^verbatim>\<open>zip(dimensionHeaders, dimensions)\<close>.\<close>

fun dimension_loop :: "(string \<times> string) list \<Rightarrow> pydict \<Rightarrow> pydict" where
  "dimension_loop [] dicts = dicts"
| "dimension_loop ((header, dimension) # ps) dicts =
     dimension_loop ps (AList.update (Some header) (PyStr dimension) dicts)"

text \<open>The loop of line 100 over \<^verbatim>\<open>zip(metricHeaders, values.get('values'))\<close>.\<close>

fun metric_loop :: "(metricHeaderEntry \<times> string) list \<Rightarrow> pydict \<Rightarrow> exn + pydict" where
  "metric_loop [] dicts = Inr dicts"
| "metric_loop ((mh, v) # ps) dicts =
     (case convert_metric v of
        Inl e \<Rightarrow> Inl e
      | Inr x \<Rightarrow> metric_loop ps (AList.update (mh_name mh) x dicts))"

text \<open>
  The loop of line 99 over the value sets of a row. \<^verbatim>\<open>values.get('values')\<close> is
  \<^verbatim>\<open>None\<close> when the key is absent, and \<^verbatim>\<open>zip\<close> then raises TypeError.
\<close>

fun date_range_loop ::
  "metricHeaderEntry list \<Rightarrow> dateRangeValues list \<Rightarrow> pydict \<Rightarrow> exn + pydict" where
  "date_range_loop metricHeaders [] dicts = Inr dicts"
| "date_range_loop metricHeaders (vs # rest) dicts =
     (case dr_values vs of
        None \<Rightarrow> Inl TypeError
      | Some vals \<Rightarrow>
          (case metric_loop (zip metricHeaders vals) dicts of
             Inl e \<Rightarrow> Inl e
           | Inr dicts' \<Rightarrow> date_range_loop metricHeaders rest dicts'))"

text \<open>The body of the loop over rows, lines 91 to 104: the mapping built for one row.\<close>

definition build_row ::
  "string list \<Rightarrow> metricHeaderEntry list \<Rightarrow> reportRow \<Rightarrow> exn + pydict" where
  "build_row dimensionHeaders metricHeaders row =
     date_range_loop metricHeaders (get_or (row_metrics row) [])
       (dimension_loop (zip dimensionHeaders (get_or (row_dimensions row) [])) [])"

text \<open>The loop of line 89 over the rows of one report, appending to \<open>report_ToList\<close>.\<close>

fun rows_loop ::
  "string list \<Rightarrow> metricHeaderEntry list \<Rightarrow> reportRow list \<Rightarrow> pydict list
     \<Rightarrow> exn + pydict list" where
  "rows_loop dimensionHeaders metricHeaders [] report_ToList = Inr report_ToList"
| "rows_loop dimensionHeaders metricHeaders (row # rest) report_ToList =
     (case build_row dimensionHeaders metricHeaders row of
        Inl e \<Rightarrow> Inl e
      | Inr dicts \<Rightarrow>
          rows_loop dimensionHeaders metricHeaders rest (report_ToList @ [dicts]))"

definition dimensionHeaders_of :: "report \<Rightarrow> string list" where
  "dimensionHeaders_of rp =
     get_or (ch_dimensions (get_or (rp_columnHeader rp) empty_columnHeader)) []"

definition metricHeaders_of :: "report \<Rightarrow> metricHeaderEntry list" where
  "metricHeaders_of rp =
     get_or (metricHeaderEntries
        (get_or (ch_metricHeader (get_or (rp_columnHeader rp) empty_columnHeader))
           empty_metricHeader)) []"

definition rows_of :: "report \<Rightarrow> reportRow list" where
  "rows_of rp = get_or (rows (get_or (rp_data rp) empty_reportData)) []"

text \<open>The loop of line 84 over the reports of the response.\<close>

fun reports_loop :: "report list \<Rightarrow> pydict list \<Rightarrow> exn + pydict list" where
  "reports_loop [] report_ToList = Inr report_ToList"
| "reports_loop (rp # rest) report_ToList =
     (case rows_loop (dimensionHeaders_of rp) (metricHeaders_of rp) (rows_of rp)
             report_ToList of
        Inl e \<Rightarrow> Inl e
      | Inr report_ToList' \<Rightarrow> reports_loop rest report_ToList')"

definition get_ga_data :: "response \<Rightarrow> exn + pydict list" where
  "get_ga_data resp = reports_loop (get_or (reports resp) []) []"

section \<open>The table\<close>

text \<open>
  \<^verbatim>\<open>pd.DataFrame(completeData)\<close> on a list of dicts. The table is kept by the dicts it
  was made from, one for each row, and by its column labels: the keys in the order in
  which they are first seen. What pandas does with the values of a column (one dtype
  for the column, NaN for a key that a row lacks) is not modelled.
\<close>

record dataframe =
  columns :: "string option list"
  records :: "pydict list"

definition first_seen :: "'a list \<Rightarrow> 'a list" where
  "first_seen xs = rev (remdups (rev xs))"

definition pd_DataFrame :: "pydict list \<Rightarrow> dataframe" where
  "pd_DataFrame completeData =
     \<lparr>columns = first_seen (concat (map (map fst) completeData)), records = completeData\<rparr>"

text \<open>
  Line 183: \<^verbatim>\<open>df.columns = df.columns.str.replace('ga:', '')\<close>. \<open>strip_ga\<close> is what the
  replacement does to one label. A label that is not a string stays missing. The
  columns of a table made from the empty list are no index of strings, and \<^verbatim>\<open>.str\<close>
  raises AttributeError on them (pandas 2 and later).
\<close>

definition strip_ga :: "string \<Rightarrow> string" where
  "strip_ga s = str_replace ''ga:'' [] s"

definition rename_columns :: "dataframe \<Rightarrow> exn + dataframe" where
  "rename_columns df =
     (if records df = [] then Inl AttributeError
      else Inr (df\<lparr>columns := map (map_option strip_ga) (columns df)\<rparr>))"

section \<open>The reporting service and the trace of calls\<close>

text \<open>
  The service is outside the module. \<open>'w\<close> is the state of the outside world, \<open>'a\<close>
  the authorised service object, \<open>'q\<close> the query (start date, end date, dimensions,
  metrics), which the module passes on unchanged. The functions of the module thread
  the world together with a trace of the calls they make: one \<open>Init\<close> for each call of
  \<open>initialize_analyticsreporting\<close>, one \<open>Fetch token\<close> for each call of \<open>get_report\<close>,
  one \<open>Sleep d\<close> for each \<^verbatim>\<open>time.sleep(d)\<close>. Output written with \<^verbatim>\<open>print\<close> is left out.
  A call of the service fails with an exception of the client library, which the
  module sees as \<open>Raised\<close>.
\<close>

datatype event = Init | Fetch string | Sleep real

record ('w, 'a, 'q) env =
  initialize_analyticsreporting :: "'w \<Rightarrow> (service_error + 'a) \<times> 'w"
  get_report :: "'a \<Rightarrow> 'q \<Rightarrow> string \<Rightarrow> 'w \<Rightarrow> (service_error + response) \<times> 'w"
  random_random :: "'w \<Rightarrow> real \<times> 'w"

type_synonym 'w state = "'w \<times> event list"

definition call_initialize ::
  "('w, 'a, 'q) env \<Rightarrow> 'w state \<Rightarrow> (exn + 'a) \<times> 'w state" where
  "call_initialize e st =
     (case initialize_analyticsreporting e (fst st) of
        (r, w') \<Rightarrow> (map_sum Raised id r, (w', snd st @ [Init])))"

definition call_get_report ::
  "('w, 'a, 'q) env \<Rightarrow> 'a \<Rightarrow> 'q \<Rightarrow> string \<Rightarrow> 'w state \<Rightarrow> (exn + response) \<times> 'w state" where
  "call_get_report e analytics q token st =
     (case get_report e analytics q token (fst st) of
        (r, w') \<Rightarrow> (map_sum Raised id r, (w', snd st @ [Fetch token])))"

text \<open>Line 254: \<^verbatim>\<open>time.sleep((2**n) + random.random())\<close>.\<close>

definition call_sleep :: "('w, 'a, 'q) env \<Rightarrow> nat \<Rightarrow> 'w state \<Rightarrow> 'w state" where
  "call_sleep e n st =
     (case random_random e (fst st) of
        (j, w') \<Rightarrow> (w', snd st @ [Sleep (2 ^ n + j)]))"

section \<open>get_response\<close>

text \<open>\<^verbatim>\<open>n.bit_length()\<close> for an integer that is not negative.\<close>

function bit_length :: "nat \<Rightarrow> nat" where
  "bit_length n = (if n = 0 then 0 else Suc (bit_length (n div 2)))"
  by pat_completeness auto
termination
  by (relation "measure (\<lambda>n. n)") auto

declare bit_length.simps [simp del]

text \<open>The integer nearest to \<open>x / b\<close>, the even one of two that are equally near.\<close>

definition round_half_even :: "nat \<Rightarrow> nat \<Rightarrow> nat" where
  "round_half_even x b =
     (let q = x div b; m = x mod b
      in if 2 * m < b then q
         else if b < 2 * m then q + 1
         else if even q then q else q + 1)"

text \<open>
  \<^verbatim>\<open>a / b\<close> for integers \<open>a \<ge> b > 0\<close> is the binary64 nearest to the quotient: with
  \<open>2^e \<le> a / b < 2^(e + 1)\<close>, the multiple of \<open>2^(e - 52)\<close> nearest to it. The division
  raises OverflowError when that is \<open>2^1024\<close> or more. \<open>math_ceil_div a b\<close> is
  \<^verbatim>\<open>math.ceil(a / b)\<close> when the division returns.
\<close>

definition true_divide_overflows :: "nat \<Rightarrow> nat \<Rightarrow> bool" where
  "true_divide_overflows a b =
     (let e = bit_length (a div b) - 1
      in 52 < e \<and> 2 ^ 1024 \<le> round_half_even a (b * 2 ^ (e - 52)) * 2 ^ (e - 52))"

definition math_ceil_div :: "nat \<Rightarrow> nat \<Rightarrow> nat" where
  "math_ceil_div a b =
     (let e = bit_length (a div b) - 1
      in if e \<le> 52
         then (round_half_even (a * 2 ^ (52 - e)) b + 2 ^ (52 - e) - 1) div 2 ^ (52 - e)
         else round_half_even a (b * 2 ^ (e - 52)) * 2 ^ (e - 52))"

text \<open>
  The divisions of lines 162 and 165 raise OverflowError for a row count beyond the
  range of binary64: that of \<^verbatim>\<open>row_remaining / 100000\<close> in the argument of \<^verbatim>\<open>print\<close>, and
  that of \<^verbatim>\<open>row_count / 100000\<close>. A quotient below 1 does not overflow.
\<close>

definition pagination_overflows :: "int \<Rightarrow> int \<Rightarrow> bool" where
  "pagination_overflows row_count row_remaining =
     ((100000 \<le> \<bar>row_remaining\<bar> \<and> true_divide_overflows (nat \<bar>row_remaining\<bar>) 100000)
      \<or> true_divide_overflows (nat row_count) 100000)"

text \<open>
  The loop of lines 165 to 167: \<open>k\<close> iterations, each appending \<open>offset\<close> to
  \<open>offset_list\<close> and adding 100000 to \<open>offset\<close>.
\<close>

fun offset_loop :: "nat \<Rightarrow> int list \<Rightarrow> int \<Rightarrow> int list" where
  "offset_loop 0 offset_list offset = offset_list"
| "offset_loop (Suc k) offset_list offset =
     offset_loop k (offset_list @ [offset]) (offset + 100000)"

text \<open>Lines 157 to 170, when the two divisions return.\<close>

definition make_offset_list :: "int \<Rightarrow> string option \<Rightarrow> int list" where
  "make_offset_list row_count nextPageToken =
     (if row_count > 100000 \<and> nextPageToken \<noteq> None
      then offset_loop (math_ceil_div (nat row_count) 100000) [] 0
      else [] @ [0])"

text \<open>The loop of lines 175 to 179 over the page tokens.\<close>

fun fetch_loop ::
  "('w, 'a, 'q) env \<Rightarrow> 'a \<Rightarrow> 'q \<Rightarrow> string list \<Rightarrow> pydict list \<Rightarrow> 'w state
     \<Rightarrow> (exn + pydict list) \<times> 'w state" where
  "fetch_loop e analytics q [] completeData st = (Inr completeData, st)"
| "fetch_loop e analytics q (token # rest) completeData st =
     (case call_get_report e analytics q token st of
        (Inl err, st') \<Rightarrow> (Inl err, st')
      | (Inr resp, st') \<Rightarrow>
          (case get_ga_data resp of
             Inl err \<Rightarrow> (Inl err, st')
           | Inr report_ToList \<Rightarrow>
               fetch_loop e analytics q rest (completeData @ report_ToList) st'))"

text \<open>The test of line 150 on the data of the first report.\<close>

definition is_sampled :: "reportData \<Rightarrow> bool" where
  "is_sampled report_data =
     (get_or (samplesReadCounts report_data) [] \<noteq> []
      \<or> get_or (samplingSpaceSizes report_data) [] \<noteq> [])"

text \<open>
  Lines 143 to 184. \<^verbatim>\<open>response.get('reports', [])[0]\<close> raises IndexError on an
  empty list; \<^verbatim>\<open>row_count - len(report_ToList)\<close> raises TypeError when the data have
  no \<^verbatim>\<open>rowCount\<close>; the first page is extracted before either the subtraction or the
  sampling test is reached. Renaming the columns is the last step that can fail.
\<close>

definition get_response ::
  "('w, 'a, 'q) env \<Rightarrow> 'a \<Rightarrow> response \<Rightarrow> 'q \<Rightarrow> 'w state
     \<Rightarrow> (exn + dataframe) \<times> 'w state" where
  "get_response e analytics resp q st =
     (case get_or (reports resp) [] of
        [] \<Rightarrow> (Inl IndexError, st)
      | report0 # _ \<Rightarrow>
          (let report_data = get_or (rp_data report0) empty_reportData;
               row_count = rowCount report_data
           in case get_ga_data resp of
                Inl err \<Rightarrow> (Inl err, st)
              | Inr report_ToList \<Rightarrow>
                  (case row_count of
                     None \<Rightarrow> (Inl TypeError, st)
                   | Some rc \<Rightarrow>
                       if is_sampled report_data then (Inl SampledDataError, st)
                       else if rc > 100000 \<and> rp_nextPageToken report0 \<noteq> None
                            \<and> pagination_overflows rc (rc - int (length report_ToList))
                       then (Inl OverflowError, st)
                       else
                         (let offset_list = make_offset_list rc (rp_nextPageToken report0);
                              nextPageToken_ToList = map str_int offset_list
                          in case fetch_loop e analytics q nextPageToken_ToList [] st of
                               (Inl err, st') \<Rightarrow> (Inl err, st')
                             | (Inr completeData, st') \<Rightarrow>
                                 (rename_columns (pd_DataFrame completeData), st')))))"

section \<open>get_dataframes\<close>

text \<open>The body of the \<^verbatim>\<open>try\<close>, lines 245 to 250: one attempt.\<close>

definition attempt ::
  "('w, 'a, 'q) env \<Rightarrow> 'q \<Rightarrow> 'w state \<Rightarrow> (exn + dataframe) \<times> 'w state" where
  "attempt e q st =
     (case call_initialize e st of
        (Inl err, st1) \<Rightarrow> (Inl err, st1)
      | (Inr analytics, st1) \<Rightarrow>
          (case call_get_report e analytics q ''0'' st1 of
             (Inl err, st2) \<Rightarrow> (Inl err, st2)
           | (Inr resp, st2) \<Rightarrow> get_response e analytics resp q st2))"

definition retryable_reasons :: "string list" where
  "retryable_reasons =
     [''userRateLimitExceeded'', ''quotaExceeded'', ''internalServerError'', ''backendError'']"

text \<open>
  \<^verbatim>\<open>error.resp.reason\<close> for the exception that the clause of line 252 has caught: an
  instance of the \<^verbatim>\<open>HTTPError\<close> of \<^verbatim>\<open>urllib.error\<close> has no attribute \<^verbatim>\<open>resp\<close>, and the
  evaluation raises AttributeError.
\<close>

definition resp_reason :: "exn \<Rightarrow> exn + string" where
  "resp_reason error = Inl AttributeError"

text \<open>
  The loop of line 243 over the attempt numbers, with the handler of lines 252 to 257.
  The clause catches an \<open>HTTPError\<close> and nothing else: any other exception leaves the
  function. The result \<open>Inr None\<close> is the function ending without \<^verbatim>\<open>return\<close>: after
  \<^verbatim>\<open>break\<close>, or when the attempt numbers are used up.
\<close>

fun retry_loop ::
  "('w, 'a, 'q) env \<Rightarrow> 'q \<Rightarrow> nat list \<Rightarrow> 'w state
     \<Rightarrow> (exn + dataframe option) \<times> 'w state" where
  "retry_loop e q [] st = (Inr None, st)"
| "retry_loop e q (n # ns) st =
     (case attempt e q st of
        (Inr df, st') \<Rightarrow> (Inr (Some df), st')
      | (Inl error, st') \<Rightarrow>
          if error = HTTPError then
            (case resp_reason error of
               Inl err \<Rightarrow> (Inl err, st')
             | Inr reason \<Rightarrow>
                 if reason \<in> set retryable_reasons
                 then retry_loop e q ns (call_sleep e n st')
                 else (Inr None, st'))
          else (Inl error, st'))"

definition get_dataframes ::
  "('w, 'a, 'q) env \<Rightarrow> 'q \<Rightarrow> 'w state \<Rightarrow> (exn + dataframe option) \<times> 'w state" where
  "get_dataframes e q st = retry_loop e q [0..<5] st"

section \<open>Notions used to state the properties of get_ga_data\<close>

text \<open>The assignments \<^verbatim>\<open>dicts[k] = x\<close> of a list of pairs, done in order.\<close>

definition assign_all :: "(string option \<times> pyval) list \<Rightarrow> pydict \<Rightarrow> pydict" where
  "assign_all ws dicts = fold (\<lambda>(k, x). AList.update k x) ws dicts"

text \<open>
  The rows that \<open>get_ga_data\<close> visits, in order, each with the dimension headers and
  the metric headers of its report.
\<close>

definition page_rows ::
  "response \<Rightarrow> (string list \<times> metricHeaderEntry list \<times> reportRow) list" where
  "page_rows resp =
     concat (map (\<lambda>rp. map (\<lambda>row. (dimensionHeaders_of rp, metricHeaders_of rp, row))
                          (rows_of rp))
                 (get_or (reports resp) []))"

text \<open>The pairs that the two \<^verbatim>\<open>zip\<close> calls of a row produce, in the order of the loops.\<close>

definition dimension_pairs :: "string list \<Rightarrow> reportRow \<Rightarrow> (string \<times> string) list" where
  "dimension_pairs dimensionHeaders row =
     zip dimensionHeaders (get_or (row_dimensions row) [])"

definition metric_pairs ::
  "metricHeaderEntry list \<Rightarrow> reportRow \<Rightarrow> (metricHeaderEntry \<times> string) list" where
  "metric_pairs metricHeaders row =
     concat (map (\<lambda>vs. zip metricHeaders (get_or (dr_values vs) []))
                 (get_or (row_metrics row) []))"

text \<open>The assignment that stores a dimension value: the string itself.\<close>

definition dimension_write :: "string \<times> string \<Rightarrow> string option \<times> pyval" where
  "dimension_write p = (Some (fst p), PyStr (snd p))"

text \<open>
  \<open>stored_as (mh, v) (k, x)\<close>: the assignment \<open>(k, x)\<close> stores the metric value string
  \<open>v\<close> under the name of \<open>mh\<close>, as the float that \<open>v\<close> denotes when \<open>v\<close> has a comma or a
  point, as the integer that \<open>v\<close> denotes otherwise.
\<close>

definition stored_as :: "metricHeaderEntry \<times> string \<Rightarrow> string option \<times> pyval \<Rightarrow> bool" where
  "stored_as p w =
     (fst w = mh_name (fst p)
      \<and> (if has_separator (snd p)
         then (case py_float (snd p) of None \<Rightarrow> False | Some f \<Rightarrow> snd w = PyFloat f)
         else (case py_int (snd p) of None \<Rightarrow> False | Some n \<Rightarrow> snd w = PyInt n)))"

text \<open>The conversion chosen for the string \<open>v\<close> accepts it.\<close>

definition parses :: "string \<Rightarrow> bool" where
  "parses v = (if has_separator v then py_float v \<noteq> None else py_int v \<noteq> None)"



text \<open>\<open>built (dhs, mhs, row) d\<close>: the loop body returns the mapping \<open>d\<close> for the row.\<close>

definition built ::
  "string list \<times> metricHeaderEntry list \<times> reportRow \<Rightarrow> pydict \<Rightarrow> bool" where
  "built t d = (build_row (fst t) (fst (snd t)) (snd (snd t)) = Inr d)"

section \<open>Example pages\<close>

text \<open>
  A page with one dimension, two metrics and one row, whose metric values are those of
  the scenario in the specification: \<open>1234\<close> and \<open>12.5\<close>.
\<close>

definition example_page :: response where
  "example_page =
     \<lparr>reports = Some
        [\<lparr>rp_columnHeader = Some
            \<lparr>ch_dimensions = Some [''ga:date''],
             ch_metricHeader = Some
               \<lparr>metricHeaderEntries = Some
                  [\<lparr>mh_name = Some ''ga:sessions''\<rparr>, \<lparr>mh_name = Some ''ga:bounceRate''\<rparr>]\<rparr>\<rparr>,
          rp_data = Some
            \<lparr>rows = Some
               [\<lparr>row_dimensions = Some [''20200101''],
                 row_metrics = Some [\<lparr>dr_values = Some [''1234'', ''12.5'']\<rparr>]\<rparr>],
             rowCount = Some 1, samplesReadCounts = None, samplingSpaceSizes = None\<rparr>,
          rp_nextPageToken = None\<rparr>]\<rparr>"

definition example_rows :: "pydict list" where
  "example_rows =
     [[(Some ''ga:date'', PyStr ''20200101''), (Some ''ga:sessions'', PyInt 1234),
       (Some ''ga:bounceRate'', PyFloat (FloatOf ''12.5''))]]"

text \<open>A page with one metric and one row, whose only metric value is \<open>v\<close>.\<close>

definition one_metric_page :: "string \<Rightarrow> response" where
  "one_metric_page v =
     \<lparr>reports = Some
        [\<lparr>rp_columnHeader = Some
            \<lparr>ch_dimensions = None,
             ch_metricHeader = Some
               \<lparr>metricHeaderEntries = Some [\<lparr>mh_name = Some ''ga:sessions''\<rparr>]\<rparr>\<rparr>,
          rp_data = Some
            \<lparr>rows = Some [\<lparr>row_dimensions = None, row_metrics = Some [\<lparr>dr_values = Some [v]\<rparr>]\<rparr>],
             rowCount = Some 1, samplesReadCounts = None, samplingSpaceSizes = None\<rparr>,
          rp_nextPageToken = None\<rparr>]\<rparr>"

text \<open>
  A page with metric headers of the given names, no dimensions and one row that
  carries the given value sets.
\<close>

definition metric_page :: "string list \<Rightarrow> string list list \<Rightarrow> response" where
  "metric_page names sets =
     \<lparr>reports = Some
        [\<lparr>rp_columnHeader = Some
            \<lparr>ch_dimensions = None,
             ch_metricHeader = Some
               \<lparr>metricHeaderEntries = Some (map (\<lambda>n. \<lparr>mh_name = Some n\<rparr>) names)\<rparr>\<rparr>,
          rp_data = Some
            \<lparr>rows = Some
               [\<lparr>row_dimensions = None,
                 row_metrics = Some (map (\<lambda>vals. \<lparr>dr_values = Some vals\<rparr>) sets)\<rparr>],
             rowCount = Some 1, samplesReadCounts = None, samplingSpaceSizes = None\<rparr>,
          rp_nextPageToken = None\<rparr>]\<rparr>"

text \<open>
  Headers and rows for the properties of one row: a row with fewer dimension values
  than dimension headers and more metric values than metric headers; a row with two
  value sets of which the second is shorter; a row with two full value sets.
\<close>

definition example_dimensionHeaders :: "string list" where
  "example_dimensionHeaders = [''ga:date'', ''ga:source'']"

definition example_metricHeaders :: "metricHeaderEntry list" where
  "example_metricHeaders = [\<lparr>mh_name = Some ''ga:sessions''\<rparr>, \<lparr>mh_name = Some ''ga:users''\<rparr>]"


definition ragged_row :: reportRow where
  "ragged_row =
     \<lparr>row_dimensions = None,
      row_metrics = Some [\<lparr>dr_values = Some [''1'', ''2'']\<rparr>, \<lparr>dr_values = Some [''3'']\<rparr>]\<rparr>"

definition two_range_row :: reportRow where
  "two_range_row =
     \<lparr>row_dimensions = Some [''20200101'', ''google''],
      row_metrics = Some [\<lparr>dr_values = Some [''1'', ''2'']\<rparr>, \<lparr>dr_values = Some [''3'', ''4'']\<rparr>]\<rparr>"

text \<open>
  The order of the keys of a dict after assignments to the keys \<open>ks\<close>, in order: a key
  that is not yet present goes to the end.
\<close>

definition insert_keys :: "'k list \<Rightarrow> 'k list \<Rightarrow> 'k list" where
  "insert_keys ks acc = fold (\<lambda>k acc. if k \<in> set acc then acc else acc @ [k]) ks acc"

section \<open>Notions used to state the properties of get_response and get_dataframes\<close>

text \<open>The data of the first report, as \<open>get_response\<close> reads them.\<close>

definition first_data :: "report \<Rightarrow> reportData" where
  "first_data report0 = get_or (rp_data report0) empty_reportData"


text \<open>The sleeps of a trace, and the number of attempts it starts.\<close>

definition sleeps :: "event list \<Rightarrow> real list" where
  "sleeps es = concat (map (\<lambda>ev. case ev of Sleep d \<Rightarrow> [d] | _ \<Rightarrow> []) es)"

definition attempts_started :: "event list \<Rightarrow> nat" where
  "attempts_started es = length (filter (\<lambda>ev. ev = Init) es)"

section \<open>Example services\<close>

text \<open>
  A service that answers every call with the same page, and a service whose every
  call of \<open>get_report\<close> fails with the same exception. Their world has one state.
\<close>

definition steady_env :: "response \<Rightarrow> (unit, unit, unit) env" where
  "steady_env page =
     \<lparr>initialize_analyticsreporting = (\<lambda>w. (Inr (), w)),
      get_report = (\<lambda>analytics q token w. (Inr page, w)),
      random_random = (\<lambda>w. (1 / 2, w))\<rparr>"

definition failing_env :: "service_error \<Rightarrow> (unit, unit, unit) env" where
  "failing_env err =
     \<lparr>initialize_analyticsreporting = (\<lambda>w. (Inr (), w)),
      get_report = (\<lambda>analytics q token w. (Inl err, w)),
      random_random = (\<lambda>w. (1 / 2, w))\<rparr>"

text \<open>
  A service that counts the calls of \<open>get_report\<close> in its world, answers the first \<open>k\<close>
  calls with a rate-limit error, for which the client library raises its \<open>HttpError\<close>,
  and answers with the page afterwards.
\<close>

definition flaky_env :: "nat \<Rightarrow> response \<Rightarrow> (nat, unit, unit) env" where
  "flaky_env k page =
     \<lparr>initialize_analyticsreporting = (\<lambda>w. (Inr (), w)),
      get_report = (\<lambda>analytics q token w.
         (if w < k then Inl (HttpError ''userRateLimitExceeded'') else Inr page, Suc w)),
      random_random = (\<lambda>w. (1 / 2, w))\<rparr>"



text \<open>A sampled first page whose metric value is not a number.\<close>

definition sampled_bad_page :: response where
  "sampled_bad_page =
     \<lparr>reports = Some
        [\<lparr>rp_columnHeader = Some
            \<lparr>ch_dimensions = None,
             ch_metricHeader = Some
               \<lparr>metricHeaderEntries = Some [\<lparr>mh_name = Some ''ga:sessions''\<rparr>]\<rparr>\<rparr>,
          rp_data = Some
            \<lparr>rows = Some [\<lparr>row_dimensions = None, row_metrics = Some [\<lparr>dr_values = Some [''N/A'']\<rparr>]\<rparr>],
             rowCount = Some 1, samplesReadCounts = Some [''499630''],
             samplingSpaceSizes = Some [''15328013'']\<rparr>,
          rp_nextPageToken = None\<rparr>]\<rparr>"

text \<open>A sampled first page that is extracted without error.\<close>

definition sampled_page :: response where
  "sampled_page =
     \<lparr>reports = Some
        [\<lparr>rp_columnHeader = Some
            \<lparr>ch_dimensions = None,
             ch_metricHeader = Some
               \<lparr>metricHeaderEntries = Some [\<lparr>mh_name = Some ''ga:sessions''\<rparr>]\<rparr>\<rparr>,
          rp_data = Some
            \<lparr>rows = Some [\<lparr>row_dimensions = None, row_metrics = Some [\<lparr>dr_values = Some [''12'']\<rparr>]\<rparr>],
             rowCount = Some 1, samplesReadCounts = Some [''499630''],
             samplingSpaceSizes = Some [''15328013'']\<rparr>,
          rp_nextPageToken = None\<rparr>]\<rparr>"


text \<open>The tables made from the rows of the example pages.\<close>

definition example_table :: dataframe where
  "example_table =
     \<lparr>columns = [Some ''date'', Some ''sessions'', Some ''bounceRate''],
      records = example_rows\<rparr>"


section \<open>Column names\<close>

lemma str_replace_absent:
  "old \<noteq> [] \<Longrightarrow> \<not> str_contains old s \<Longrightarrow> str_replace old new s = s"
  by (induction s) auto

lemma length_str_replace_le:
  "old \<noteq> [] \<Longrightarrow> length (str_replace old [] s) \<le> length s"
proof (induction old "[] :: string" s rule: str_replace.induct)
  case (1 old)
  then show ?case by simp
next
  case (2 old c cs)
  show ?case
  proof (cases "prefix old (c # cs)")
    case True
    with 2 have "length (str_replace old [] (drop (length old) (c # cs)))
        \<le> length (drop (length old) (c # cs))"
      by simp
    with True 2(4) show ?thesis by simp
  next
    case False
    with 2 show ?thesis by simp
  qed
qed

lemma length_str_replace_less:
  "old \<noteq> [] \<Longrightarrow> str_contains old s \<Longrightarrow> length (str_replace old [] s) < length s"
proof (induction s)
  case Nil
  then show ?case by simp
next
  case (Cons c cs)
  show ?case
  proof (cases "prefix old (c # cs)")
    case True
    have "length (str_replace old [] (drop (length old) (c # cs)))
        \<le> length (drop (length old) (c # cs))"
      using Cons.prems(1) by (rule length_str_replace_le)
    also have "\<dots> < length (c # cs)"
      using Cons.prems(1) by simp
    finally show ?thesis using True Cons.prems(1) by simp
  next
    case False
    with Cons show ?thesis by simp
  qed
qed

lemma str_replace_fixed_iff:
  "old \<noteq> [] \<Longrightarrow> str_replace old [] s = s \<longleftrightarrow> \<not> str_contains old s"
  using length_str_replace_less [of old s] str_replace_absent [of old s "[]"]
  by auto

lemma strip_ga_prefixed:
  "\<not> str_contains ''ga:'' r \<Longrightarrow> strip_ga (''ga:'' @ r) = r"
  by (simp add: strip_ga_def str_replace_absent)

text \<open>
  Claim C7, as amended. Removing \<open>ga:\<close> from a column name a second time changes
  nothing exactly when the name obtained the first time holds no occurrence of \<open>ga:\<close>.
  That is so for a name \<open>ga:\<close> followed by a remainder \<open>r\<close> without \<open>ga:\<close>, which the
  first removal turns into \<open>r\<close>, and for a name without \<open>ga:\<close>.
\<close>

theorem strip_ga_idempotent_iff:
  "(strip_ga (strip_ga s) = strip_ga s \<longleftrightarrow> \<not> str_contains ''ga:'' (strip_ga s))
   \<and> (\<not> str_contains ''ga:'' r \<longrightarrow> strip_ga (''ga:'' @ r) = r \<and> strip_ga r = r)"
  using str_replace_fixed_iff [of "''ga:''" "strip_ga s"]
    str_replace_fixed_iff [of "''ga:''" r] strip_ga_prefixed [of r]
  by (simp add: strip_ga_def)

theorem strip_ga_idempotent_iff_witness:
  "strip_ga (strip_ga ''ga:sessions'') = strip_ga ''ga:sessions''
   \<and> \<not> str_contains ''ga:'' ''sessions''
   \<and> strip_ga (''ga:'' @ ''sessions'') = ''sessions'' \<and> strip_ga ''sessions'' = ''sessions''"
  using strip_ga_idempotent_iff [of "''ga:sessions''" "''sessions''"]
  by (simp add: strip_ga_def)

text \<open>
  The claim C7 as stated, idempotence for every string, fails: removing the one
  occurrence in \<open>gga:a:\<close> joins its neighbours into a new \<open>ga:\<close>.
\<close>

theorem strip_ga_not_idempotent:
  "strip_ga (strip_ga ''gga:a:'') \<noteq> strip_ga ''gga:a:''"
  by (simp add: strip_ga_def)

section \<open>Properties of get_ga_data\<close>

lemma assign_all_Nil [simp]: "assign_all [] d = d"
  by (simp add: assign_all_def)

lemma assign_all_Cons [simp]:
  "assign_all ((k, x) # ws) d = assign_all ws (AList.update k x d)"
  by (simp add: assign_all_def)

lemma assign_all_append: "assign_all (ws @ ws') d = assign_all ws' (assign_all ws d)"
  by (simp add: assign_all_def)

lemma dimension_loop_assign:
  "dimension_loop ps d = assign_all (map dimension_write ps) d"
  by (induction ps d rule: dimension_loop.induct) (simp_all add: dimension_write_def)

lemma convert_metric_Inr:
  "convert_metric v = Inr x \<longleftrightarrow> stored_as (mh, v) (mh_name mh, x)"
  by (auto simp: convert_metric_def stored_as_def split: option.splits)

lemma convert_metric_parses: "(\<exists>x. convert_metric v = Inr x) \<longleftrightarrow> parses v"
  by (auto simp: convert_metric_def parses_def split: option.splits)

lemma convert_metric_error: "convert_metric v = Inl err \<Longrightarrow> err = ValueError"
  by (auto simp: convert_metric_def split: option.splits if_splits)

lemma metric_loop_Inr:
  "metric_loop ps d = Inr d' \<longleftrightarrow>
     (\<exists>ws. list_all2 stored_as ps ws \<and> d' = assign_all ws d)"
proof (induction ps arbitrary: d)
  case Nil
  show ?case by auto
next
  case (Cons p ps)
  obtain mh v where p: "p = (mh, v)" by (cases p)
  show ?case
  proof (cases "convert_metric v")
    case (Inl err)
    then have "\<not> stored_as (mh, v) w" for w
      using convert_metric_Inr [of v "snd w" mh]
      by (cases w) (auto simp: stored_as_def)
    with Inl p show ?thesis by (auto simp: list_all2_Cons1)
  next
    case (Inr x)
    then have "stored_as (mh, v) w \<longleftrightarrow> w = (mh_name mh, x)" for w
      using convert_metric_Inr [of v "snd w" mh]
      by (cases w) (auto simp: stored_as_def)
    with Inr p Cons.IH [of "AList.update (mh_name mh) x d"] show ?thesis
      by (auto simp: list_all2_Cons1)
  qed
qed


lemma date_range_loop_Inr:
  "date_range_loop mhs vss d = Inr d' \<longleftrightarrow>
     (\<forall>vs \<in> set vss. dr_values vs \<noteq> None)
     \<and> (\<exists>ws. list_all2 stored_as
                (concat (map (\<lambda>vs. zip mhs (get_or (dr_values vs) [])) vss)) ws
              \<and> d' = assign_all ws d)"
proof (induction vss arbitrary: d)
  case Nil
  show ?case by auto
next
  case (Cons vs vss)
  show ?case
  proof (cases "dr_values vs")
    case None
    then show ?thesis by simp
  next
    case (Some vals)
    show ?thesis
    proof
      assume "date_range_loop mhs (vs # vss) d = Inr d'"
      with Some obtain d1 where d1: "metric_loop (zip mhs vals) d = Inr d1"
        and rest: "date_range_loop mhs vss d1 = Inr d'"
        by (auto split: sum.splits)
      from d1 obtain ws1 where ws1: "list_all2 stored_as (zip mhs vals) ws1"
        and d1_eq: "d1 = assign_all ws1 d"
        by (auto simp: metric_loop_Inr)
      from rest Cons.IH [of d1] obtain ws2
        where all: "\<forall>vs \<in> set vss. dr_values vs \<noteq> None"
          and ws2: "list_all2 stored_as
             (concat (map (\<lambda>vs. zip mhs (get_or (dr_values vs) [])) vss)) ws2"
          and d'_eq: "d' = assign_all ws2 d1"
        by auto
      from ws1 ws2 have "list_all2 stored_as
          (concat (map (\<lambda>vs. zip mhs (get_or (dr_values vs) [])) (vs # vss))) (ws1 @ ws2)"
        using Some by (simp add: get_or_def list_all2_appendI)
      moreover have "d' = assign_all (ws1 @ ws2) d"
        using d1_eq d'_eq by (simp add: assign_all_append)
      ultimately show "(\<forall>vs \<in> set (vs # vss). dr_values vs \<noteq> None)
          \<and> (\<exists>ws. list_all2 stored_as
                (concat (map (\<lambda>vs. zip mhs (get_or (dr_values vs) [])) (vs # vss))) ws
              \<and> d' = assign_all ws d)"
        using all Some by auto
    next
      assume "(\<forall>vs \<in> set (vs # vss). dr_values vs \<noteq> None)
          \<and> (\<exists>ws. list_all2 stored_as
                (concat (map (\<lambda>vs. zip mhs (get_or (dr_values vs) [])) (vs # vss))) ws
              \<and> d' = assign_all ws d)"
      then obtain ws where all: "\<forall>vs \<in> set vss. dr_values vs \<noteq> None"
        and ws: "list_all2 stored_as
           (zip mhs vals @ concat (map (\<lambda>vs. zip mhs (get_or (dr_values vs) [])) vss)) ws"
        and d'_eq: "d' = assign_all ws d"
        using Some by (auto simp: get_or_def)
      from ws obtain ws1 ws2 where split: "ws = ws1 @ ws2"
        and ws1: "list_all2 stored_as (zip mhs vals) ws1"
        and ws2: "list_all2 stored_as
           (concat (map (\<lambda>vs. zip mhs (get_or (dr_values vs) [])) vss)) ws2"
        by (auto simp: list_all2_append1)
      from ws1 have "metric_loop (zip mhs vals) d = Inr (assign_all ws1 d)"
        by (auto simp: metric_loop_Inr)
      moreover have "date_range_loop mhs vss (assign_all ws1 d) = Inr d'"
        using Cons.IH [of "assign_all ws1 d"] all ws2 d'_eq split
        by (auto simp: assign_all_append)
      ultimately show "date_range_loop mhs (vs # vss) d = Inr d'"
        using Some by simp
    qed
  qed
qed

lemma build_row_Inr:
  "build_row dhs mhs row = Inr d \<longleftrightarrow>
     (\<forall>vs \<in> set (get_or (row_metrics row) []). dr_values vs \<noteq> None)
     \<and> (\<exists>ws. list_all2 stored_as (metric_pairs mhs row) ws
              \<and> d = assign_all (map dimension_write (dimension_pairs dhs row) @ ws) [])"
  by (simp add: build_row_def date_range_loop_Inr dimension_loop_assign metric_pairs_def
      dimension_pairs_def assign_all_append)

lemma rows_loop_Inr:
  "rows_loop dhs mhs rs acc = Inr out \<longleftrightarrow>
     (\<exists>ds. out = acc @ ds \<and> list_all2 (\<lambda>row d. build_row dhs mhs row = Inr d) rs ds)"
proof (induction rs arbitrary: acc)
  case Nil
  show ?case by auto
next
  case (Cons row rs)
  show ?case
  proof (cases "build_row dhs mhs row")
    case (Inl err)
    then show ?thesis by (auto simp: list_all2_Cons1)
  next
    case (Inr d)
    then show ?thesis
      using Cons.IH [of "acc @ [d]"] by (auto simp: list_all2_Cons1)
  qed
qed

lemma reports_loop_Inr:
  "reports_loop rps acc = Inr out \<longleftrightarrow>
     (\<exists>ds. out = acc @ ds
        \<and> list_all2 built
            (concat (map (\<lambda>rp. map (\<lambda>row. (dimensionHeaders_of rp, metricHeaders_of rp, row))
                                  (rows_of rp)) rps)) ds)"
proof (induction rps arbitrary: acc)
  case Nil
  show ?case by auto
next
  case (Cons rp rps)
  let ?here = "map (\<lambda>row. (dimensionHeaders_of rp, metricHeaders_of rp, row)) (rows_of rp)"
  have here: "list_all2 built ?here ds \<longleftrightarrow>
      list_all2 (\<lambda>row d. build_row (dimensionHeaders_of rp) (metricHeaders_of rp) row = Inr d)
        (rows_of rp) ds" for ds
    by (simp add: list_all2_map1 built_def)
  show ?case
  proof (cases "rows_loop (dimensionHeaders_of rp) (metricHeaders_of rp) (rows_of rp) acc")
    case (Inl err)
    then have "\<not> list_all2 built ?here ds" for ds
      using rows_loop_Inr [of "dimensionHeaders_of rp" "metricHeaders_of rp" "rows_of rp" acc
          "acc @ ds"]
      by (simp add: here)
    with Inl show ?thesis by (auto simp: list_all2_append1)
  next
    case (Inr out1)
    then obtain ds1 where out1: "out1 = acc @ ds1" and ds1: "list_all2 built ?here ds1"
      by (auto simp: rows_loop_Inr here)
    have uniq: "ds = ds1" if "list_all2 built ?here ds" for ds
      using that Inr rows_loop_Inr [of "dimensionHeaders_of rp" "metricHeaders_of rp"
          "rows_of rp" acc "acc @ ds"]
      by (simp add: here out1)
    show ?thesis
    proof
      assume "reports_loop (rp # rps) acc = Inr out"
      with Inr have "reports_loop rps out1 = Inr out" by simp
      with Cons.IH [of out1] obtain ds2 where "out = out1 @ ds2"
        and "list_all2 built
            (concat (map (\<lambda>rp. map (\<lambda>row. (dimensionHeaders_of rp, metricHeaders_of rp, row))
                                  (rows_of rp)) rps)) ds2"
        by auto
      with out1 ds1 show "\<exists>ds. out = acc @ ds
        \<and> list_all2 built
            (concat (map (\<lambda>rp. map (\<lambda>row. (dimensionHeaders_of rp, metricHeaders_of rp, row))
                                  (rows_of rp)) (rp # rps))) ds"
        by (auto intro!: exI [of _ "ds1 @ ds2"] list_all2_appendI)
    next
      assume "\<exists>ds. out = acc @ ds
        \<and> list_all2 built
            (concat (map (\<lambda>rp. map (\<lambda>row. (dimensionHeaders_of rp, metricHeaders_of rp, row))
                                  (rows_of rp)) (rp # rps))) ds"
      then obtain us vs where out: "out = acc @ us @ vs"
        and us: "list_all2 built ?here us"
        and vs: "list_all2 built
            (concat (map (\<lambda>rp. map (\<lambda>row. (dimensionHeaders_of rp, metricHeaders_of rp, row))
                                  (rows_of rp)) rps)) vs"
        by (auto simp: list_all2_append1)
      from us have "us = ds1" by (rule uniq)
      with out out1 vs have "reports_loop rps out1 = Inr out"
        using Cons.IH [of out1] by auto
      with Inr show "reports_loop (rp # rps) acc = Inr out" by simp
    qed
  qed
qed

lemma get_ga_data_Inr:
  "get_ga_data resp = Inr out \<longleftrightarrow> list_all2 built (page_rows resp) out"
  by (simp add: get_ga_data_def reports_loop_Inr page_rows_def)

lemma ex_some_list_all2:
  "(\<exists>ys. list_all2 P xs ys) \<longleftrightarrow> (\<forall>x \<in> set xs. \<exists>y. P x y)"
proof (induction xs)
  case Nil
  show ?case by simp
next
  case (Cons x xs)
  show ?case
  proof
    assume "\<exists>ys. list_all2 P (x # xs) ys"
    then show "\<forall>x \<in> set (x # xs). \<exists>y. P x y"
      using Cons.IH by (auto simp: list_all2_Cons1)
  next
    assume a: "\<forall>x \<in> set (x # xs). \<exists>y. P x y"
    then obtain y where y: "P x y" by auto
    from a Cons.IH obtain ys where "list_all2 P xs ys" by auto
    with y have "list_all2 P (x # xs) (y # ys)" by simp
    then show "\<exists>ys. list_all2 P (x # xs) ys" ..
  qed
qed

lemma ex_stored_as: "(\<exists>w. stored_as p w) \<longleftrightarrow> parses (snd p)"
  by (auto simp: stored_as_def parses_def split: option.splits)

lemma build_row_succeeds_iff:
  "(\<exists>d. build_row dhs mhs row = Inr d) \<longleftrightarrow>
     (\<forall>vs \<in> set (get_or (row_metrics row) []). dr_values vs \<noteq> None)
     \<and> (\<forall>p \<in> set (metric_pairs mhs row). parses (snd p))"
  by (auto simp: build_row_Inr ex_some_list_all2 ex_stored_as simp flip: ex_stored_as)

lemma get_ga_data_succeeds_iff:
  "(\<exists>out. get_ga_data resp = Inr out) \<longleftrightarrow>
     (\<forall>t \<in> set (page_rows resp).
        (\<forall>vs \<in> set (get_or (row_metrics (snd (snd t))) []). dr_values vs \<noteq> None)
        \<and> (\<forall>p \<in> set (metric_pairs (fst (snd t)) (snd (snd t))). parses (snd p)))"
  by (simp add: get_ga_data_Inr ex_some_list_all2 built_def build_row_succeeds_iff)

subsection \<open>A comma makes the conversion fail\<close>

lemma mem_dropWhile: "x \<in> set xs \<Longrightarrow> \<not> P x \<Longrightarrow> x \<in> set (dropWhile P xs)"
  by (induction xs) auto

lemma mem_py_strip: "c \<in> set s \<Longrightarrow> \<not> is_space c \<Longrightarrow> c \<in> set (py_strip s)"
  by (simp add: py_strip_def mem_dropWhile)

lemma mem_drop_underscores:
  "drop_underscores prev s = Some t \<Longrightarrow> c \<in> set s \<Longrightarrow> c \<noteq> CHR ''_'' \<Longrightarrow> c \<in> set t"
  by (induction prev s arbitrary: t rule: drop_underscores.induct)
    (auto split: if_splits option.splits)

lemma mem_split_sign:
  "c \<in> set t \<Longrightarrow> c \<noteq> CHR ''-'' \<Longrightarrow> c \<noteq> CHR ''+'' \<Longrightarrow> c \<in> set (snd (split_sign t))"
  by (cases t) auto

lemma comma_plain:
  "\<not> is_space CHR '',''" "\<not> is_digit CHR '',''" "to_lower CHR '','' = CHR '',''"
  by (simp_all add: is_space_def is_digit_def to_lower_def)

lemma is_exponent_comma: "CHR '','' \<in> set s \<Longrightarrow> \<not> is_exponent s"
proof (cases s)
  case Nil
  assume "CHR '','' \<in> set s"
  with Nil show ?thesis by simp
next
  case (Cons c cs)
  assume mem: "CHR '','' \<in> set s"
  show ?thesis
  proof (cases "c = CHR ''e'' \<or> c = CHR ''E''")
    case False
    with Cons show ?thesis by (simp add: is_exponent_def)
  next
    case True
    with Cons mem have "CHR '','' \<in> set cs" by auto
    then have "CHR '','' \<in> set (snd (split_sign cs))"
      by (rule mem_split_sign) simp_all
    then have "\<not> list_all is_digit (snd (split_sign cs))"
      using comma_plain(2) by (auto simp: list_all_iff)
    with Cons show ?thesis
      by (simp add: is_exponent_def)
  qed
qed

lemma mem_after_digits: "CHR '','' \<in> set s \<Longrightarrow> CHR '','' \<in> set (dropWhile is_digit s)"
  by (rule mem_dropWhile) (simp_all add: comma_plain)

lemma is_decimal_comma: "CHR '','' \<in> set s \<Longrightarrow> \<not> is_decimal s"
proof -
  assume mem: "CHR '','' \<in> set s"
  then have r1: "CHR '','' \<in> set (dropWhile is_digit s)" by (rule mem_after_digits)
  then obtain c cs where cs: "dropWhile is_digit s = c # cs"
    by (cases "dropWhile is_digit s") auto
  have "\<not> is_exponent (if c = CHR ''.'' then dropWhile is_digit cs else c # cs)"
  proof (cases "c = CHR ''.''")
    case True
    with r1 cs have "CHR '','' \<in> set cs" by auto
    then have "CHR '','' \<in> set (dropWhile is_digit cs)" by (rule mem_after_digits)
    with True show ?thesis by (simp add: is_exponent_comma)
  next
    case False
    with r1 cs show ?thesis by (simp add: is_exponent_comma)
  qed
  with cs show ?thesis by (simp add: is_decimal_def Let_def)
qed

lemma float_accepts_comma: "CHR '','' \<in> set s \<Longrightarrow> \<not> float_accepts s"
proof -
  assume "CHR '','' \<in> set s"
  then have strip: "CHR '','' \<in> set (py_strip s)"
    by (rule mem_py_strip) (simp add: comma_plain)
  show ?thesis
  proof (cases "drop_underscores None (py_strip s)")
    case None
    then show ?thesis by (simp add: float_accepts_def)
  next
    case (Some t)
    from Some strip have t: "CHR '','' \<in> set t"
      by (rule mem_drop_underscores) simp
    from t have body: "CHR '','' \<in> set (snd (split_sign t))"
      by (rule mem_split_sign) simp_all
    then have lower: "CHR '','' \<in> set (map to_lower (snd (split_sign t)))"
      using comma_plain(3) by (metis image_eqI set_map)
    have "map to_lower (snd (split_sign t)) \<noteq> ''inf''"
      "map to_lower (snd (split_sign t)) \<noteq> ''infinity''"
      "map to_lower (snd (split_sign t)) \<noteq> ''nan''"
      using lower by auto
    with Some body show ?thesis
      by (simp add: float_accepts_def Let_def is_decimal_comma)
  qed
qed

lemma py_float_comma: "CHR '','' \<in> set s \<Longrightarrow> py_float s = None"
  by (simp add: py_float_def float_accepts_comma)

lemma convert_metric_comma: "CHR '','' \<in> set v \<Longrightarrow> convert_metric v = Inl ValueError"
  by (simp add: convert_metric_def has_separator_def py_float_comma)


subsection \<open>What a row stores\<close>

lemma example_page_rows: "get_ga_data example_page = Inr example_rows"
  by code_simp




subsection \<open>Extraction can fail\<close>

text \<open>
  Claim C10, as amended. \<open>get_ga_data\<close> raises ValueError on a page whose metric value
  is \<open>1,5\<close>, the empty string or \<open>N/A\<close>; the conversion of any string with a comma raises
  ValueError; and \<open>get_ga_data\<close> returns exactly when every value set has its
  \<^verbatim>\<open>values\<close> and every metric value string that is paired with a header is accepted
  by the conversion chosen for it.
\<close>

theorem get_ga_data_not_total:
  "get_ga_data (one_metric_page ''1,5'') = Inl ValueError
   \<and> get_ga_data (one_metric_page []) = Inl ValueError
   \<and> get_ga_data (one_metric_page ''N/A'') = Inl ValueError
   \<and> (CHR '','' \<in> set v \<longrightarrow> convert_metric v = Inl ValueError)
   \<and> ((\<exists>out. get_ga_data resp = Inr out) \<longleftrightarrow>
        (\<forall>t \<in> set (page_rows resp).
           (\<forall>vs \<in> set (get_or (row_metrics (snd (snd t))) []). dr_values vs \<noteq> None)
           \<and> (\<forall>p \<in> set (metric_pairs (fst (snd t)) (snd (snd t))). parses (snd p))))"
proof -
  have "get_ga_data (one_metric_page ''1,5'') = Inl ValueError" by code_simp
  moreover have "get_ga_data (one_metric_page []) = Inl ValueError" by code_simp
  moreover have "get_ga_data (one_metric_page ''N/A'') = Inl ValueError" by code_simp
  ultimately show ?thesis
    using get_ga_data_succeeds_iff [of resp] convert_metric_comma [of v] by blast
qed

theorem get_ga_data_not_total_witness:
  "CHR '','' \<in> set ''1,234'' \<and> convert_metric ''1,234'' = Inl ValueError
   \<and> get_ga_data example_page = Inr example_rows
   \<and> list_all
       (\<lambda>t. (\<forall>vs \<in> set (get_or (row_metrics (snd (snd t))) []). dr_values vs \<noteq> None)
          \<and> (\<forall>p \<in> set (metric_pairs (fst (snd t)) (snd (snd t))). parses (snd p)))
       (page_rows example_page)"
  unfolding list_all_iff
  using get_ga_data_not_total [of "''1,234''" example_page] example_page_rows by auto

text \<open>
  The claim C10 as stated, that extraction succeeds only when every metric value
  string parses, fails: a value beyond the metric headers is never converted. The page
  with one metric header and the values \<open>7\<close> and \<open>N/A\<close> is extracted, although no
  conversion accepts \<open>N/A\<close>.
\<close>

theorem get_ga_data_skips_surplus_value:
  "get_ga_data (metric_page [''ga:sessions''] [[''7'', ''N/A'']])
     = Inr [[(Some ''ga:sessions'', PyInt 7)]]
   \<and> \<not> parses ''N/A''
   \<and> py_int ''N/A'' = None \<and> py_float ''N/A'' = None"
proof -
  have "get_ga_data (metric_page [''ga:sessions''] [[''7'', ''N/A'']])
      = Inr [[(Some ''ga:sessions'', PyInt 7)]]"
    by code_simp
  moreover have "\<not> parses ''N/A''" by code_simp
  moreover have "py_int ''N/A'' = None" by code_simp
  moreover have "py_float ''N/A'' = None" by code_simp
  ultimately show ?thesis by simp
qed
section \<open>Order and content of the row mapping\<close>


lemma alist_eqI:
  "distinct (map fst xs) \<Longrightarrow> map fst xs = map fst ys \<Longrightarrow> map_of xs = map_of ys \<Longrightarrow> xs = ys"
proof (induction xs arbitrary: ys)
  case Nil
  then show ?case by simp
next
  case (Cons x xs)
  then obtain y ys' where ys: "ys = y # ys'" by (cases ys) auto
  with Cons.prems have k: "fst x = fst y" and ks: "map fst xs = map fst ys'" by auto
  have "map_of (x # xs) (fst x) = map_of ys (fst x)"
    by (rule fun_cong [OF Cons.prems(3)])
  with k ys have v: "snd x = snd y" by (cases x; cases y) simp
  have "map_of xs k' = map_of ys' k'" for k'
  proof (cases "k' = fst x")
    case True
    with Cons.prems(1) have "k' \<notin> fst ` set xs" by auto
    moreover from this ks have "k' \<notin> fst ` set ys'" by (metis set_map)
    ultimately have "map_of xs k' = None" "map_of ys' k' = None"
      by (simp_all only: map_of_eq_None_iff not_False_eq_True)
    then show ?thesis by simp
  next
    case False
    have "map_of (x # xs) k' = map_of ys k'"
      by (rule fun_cong [OF Cons.prems(3)])
    with False k ys show ?thesis by (cases x; cases y) simp
  qed
  then have "map_of xs = map_of ys'" by (rule ext)
  with Cons.IH [of ys'] Cons.prems(1) ks have "xs = ys'" by simp
  with k v ys show ?case by (cases x; cases y) auto
qed

lemma keys_assign_all: "map fst (assign_all ws d) = insert_keys (map fst ws) (map fst d)"
proof (induction ws arbitrary: d)
  case Nil
  show ?case by (simp add: insert_keys_def)
next
  case (Cons w ws)
  obtain k x where w: "w = (k, x)" by (cases w)
  show ?case
    using Cons.IH [of "AList.update k x d"]
    by (simp add: w insert_keys_def update_keys)
qed

lemma map_add_upd_left: "m(k \<mapsto> x) ++ m' = m ++ ([k \<mapsto> x] ++ m')"
  by (rule ext) (simp add: map_add_def split: option.splits)

lemma map_of_assign_all: "map_of (assign_all ws d) = map_of d ++ map_of (rev ws)"
proof (induction ws arbitrary: d)
  case Nil
  show ?case by simp
next
  case (Cons w ws)
  obtain k x where w: "w = (k, x)" by (cases w)
  have "map_of (assign_all (w # ws) d) = map_of (AList.update k x d) ++ map_of (rev ws)"
    using Cons.IH [of "AList.update k x d"] by (simp add: w)
  also have "map_of (AList.update k x d) = (map_of d)(k \<mapsto> x)"
    by (rule update_conv')
  also have "(map_of d)(k \<mapsto> x) ++ map_of (rev ws)
      = map_of d ++ ([k \<mapsto> x] ++ map_of (rev ws))"
    by (rule map_add_upd_left)
  also have "[k \<mapsto> x] ++ map_of (rev ws) = map_of (rev (w # ws))"
    by (simp add: w map_of_append)
  finally show ?case .
qed

lemma distinct_assign_all: "distinct (map fst d) \<Longrightarrow> distinct (map fst (assign_all ws d))"
  by (induction ws arbitrary: d) (auto simp: distinct_update)

lemma insert_keys_append: "insert_keys (xs @ ys) acc = insert_keys ys (insert_keys xs acc)"
  by (simp add: insert_keys_def)

lemma set_insert_keys: "set (insert_keys xs acc) = set xs \<union> set acc"
  by (induction xs arbitrary: acc) (auto simp: insert_keys_def)

lemma insert_keys_present: "set xs \<subseteq> set acc \<Longrightarrow> insert_keys xs acc = acc"
  by (induction xs arbitrary: acc) (auto simp: insert_keys_def)

lemma insert_keys_take_twice:
  assumes "a \<le> n"
  shows "insert_keys (take n ns) (insert_keys (take a ns) acc) = insert_keys (take n ns) acc"
proof -
  from assms have split: "take n ns = take a ns @ drop a (take n ns)"
    by (metis append_take_drop_id min.absorb1 take_take)
  have "insert_keys (take a ns) (insert_keys (take a ns) acc) = insert_keys (take a ns) acc"
    by (rule insert_keys_present) (simp add: set_insert_keys)
  then have "insert_keys (take a ns @ drop a (take n ns)) (insert_keys (take a ns) acc)
      = insert_keys (take a ns @ drop a (take n ns)) acc"
    by (simp add: insert_keys_append)
  with split show ?thesis by simp
qed

lemma insert_keys_prefixes:
  "\<forall>a \<in> set as. a \<le> n \<Longrightarrow>
     insert_keys (concat (map (\<lambda>a. take a ns) as) @ take n ns) acc = insert_keys (take n ns) acc"
proof (induction as arbitrary: acc)
  case Nil
  show ?case by simp
next
  case (Cons a as)
  then have "insert_keys (concat (map (\<lambda>a. take a ns) as) @ take n ns)
       (insert_keys (take a ns) acc) = insert_keys (take n ns) (insert_keys (take a ns) acc)"
    by simp
  also have "\<dots> = insert_keys (take n ns) acc"
    using Cons.prems by (simp add: insert_keys_take_twice)
  finally show ?case by (simp add: insert_keys_append)
qed

lemma assign_all_covered:
  assumes d: "distinct (map fst d)"
    and k1: "map fst ws1 = concat (map (\<lambda>a. take a ns) as)"
    and k2: "map fst ws2 = take n ns"
    and le: "\<forall>a \<in> set as. a \<le> n"
  shows "assign_all (ws1 @ ws2) d = assign_all ws2 d"
proof (rule alist_eqI)
  show "distinct (map fst (assign_all (ws1 @ ws2) d))"
    using d by (rule distinct_assign_all)
  show "map fst (assign_all (ws1 @ ws2) d) = map fst (assign_all ws2 d)"
    using insert_keys_prefixes [OF le, of ns "map fst d"]
    by (simp add: keys_assign_all k1 k2)
  have "set (map fst ws1) \<subseteq> set (map fst ws2)"
  proof
    fix k assume "k \<in> set (map fst ws1)"
    with k1 obtain a where "a \<in> set as" "k \<in> set (take a ns)" by auto
    with le have "k \<in> set (take n ns)"
      by (meson set_take_subset_set_take subsetD)
    with k2 show "k \<in> set (map fst ws2)" by simp
  qed
  then have "dom (map_of (rev ws1)) \<subseteq> dom (map_of (rev ws2))"
    by (simp add: dom_map_of_conv_image_fst)
  then have "map_of (rev ws1) ++ map_of (rev ws2) = map_of (rev ws2)"
    by (auto simp: map_add_def fun_eq_iff split: option.splits)
  then show "map_of (assign_all (ws1 @ ws2) d) = map_of (assign_all ws2 d)"
    by (simp add: map_of_assign_all map_add_assoc)
qed

lemma stored_as_keys:
  "list_all2 stored_as ps ws \<Longrightarrow> map fst ws = map (mh_name \<circ> fst) ps"
  by (induction rule: list_all2_induct) (auto simp: stored_as_def)

lemma keys_zip:
  "map (mh_name \<circ> fst) (zip mhs vals)
     = take (min (length mhs) (length vals)) (map mh_name mhs)"
  by (induction mhs arbitrary: vals) (auto simp: zip_Cons1 split: list.splits)

subsection \<open>Several value sets\<close>

text \<open>
  Claim C9, as amended. When the last value set of a row has at least as many paired
  values as every earlier one, the mapping returned for the row is the mapping that
  the last value set alone gives: every value of an earlier set is overwritten.
\<close>

theorem build_row_last_value_set:
  assumes ok: "build_row dhs mhs row = Inr d"
    and ms: "get_or (row_metrics row) [] = earlier @ [lastv]"
    and cover: "\<forall>vs \<in> set earlier.
        min (length mhs) (length (get_or (dr_values vs) []))
          \<le> length (get_or (dr_values lastv) [])"
  shows "build_row dhs mhs (row\<lparr>row_metrics := Some [lastv]\<rparr>) = Inr d"
proof -
  let ?pairs = "\<lambda>vs. zip mhs (get_or (dr_values vs) [])"
  let ?dimw = "map dimension_write (dimension_pairs dhs row)"
  let ?ns = "map mh_name mhs"
  let ?n = "min (length mhs) (length (get_or (dr_values lastv) []))"
  let ?as = "map (\<lambda>vs. min (length mhs) (length (get_or (dr_values vs) []))) earlier"
  from ok obtain ws where present: "\<forall>vs \<in> set (earlier @ [lastv]). dr_values vs \<noteq> None"
    and ws: "list_all2 stored_as (metric_pairs mhs row) ws"
    and d: "d = assign_all (?dimw @ ws) []"
    by (auto simp: build_row_Inr ms)
  have "metric_pairs mhs row = concat (map ?pairs earlier) @ ?pairs lastv"
    by (simp add: metric_pairs_def ms)
  with ws obtain ws1 ws2 where split: "ws = ws1 @ ws2"
    and ws1: "list_all2 stored_as (concat (map ?pairs earlier)) ws1"
    and ws2: "list_all2 stored_as (?pairs lastv) ws2"
    by (auto simp: list_all2_append1)
  have k1: "map fst ws1 = concat (map (\<lambda>a. take a ?ns) ?as)"
    using stored_as_keys [OF ws1]
    by (simp add: map_concat comp_def keys_zip [unfolded comp_def])
  have k2: "map fst ws2 = take ?n ?ns"
    using stored_as_keys [OF ws2] by (simp add: keys_zip)
  have le: "\<forall>a \<in> set ?as. a \<le> ?n"
    using cover by auto
  have "distinct (map fst (assign_all ?dimw []))"
    by (rule distinct_assign_all) simp
  then have "assign_all (ws1 @ ws2) (assign_all ?dimw []) = assign_all ws2 (assign_all ?dimw [])"
    using k1 k2 le by (rule assign_all_covered)
  with d split have d': "d = assign_all (?dimw @ ws2) []"
    by (simp add: assign_all_append)
  have "metric_pairs mhs (row\<lparr>row_metrics := Some [lastv]\<rparr>) = ?pairs lastv"
    by (simp add: metric_pairs_def get_or_def)
  moreover have "dimension_pairs dhs (row\<lparr>row_metrics := Some [lastv]\<rparr>) = dimension_pairs dhs row"
    by (simp add: dimension_pairs_def)
  ultimately show ?thesis
    using present ws2 d' by (auto simp: build_row_Inr get_or_def)
qed

lemma two_range_row_built:
  "build_row example_dimensionHeaders example_metricHeaders two_range_row
     = Inr [(Some ''ga:date'', PyStr ''20200101''), (Some ''ga:source'', PyStr ''google''),
            (Some ''ga:sessions'', PyInt 3), (Some ''ga:users'', PyInt 4)]"
  by code_simp

theorem build_row_last_value_set_witness:
  "build_row example_dimensionHeaders example_metricHeaders two_range_row
     = Inr [(Some ''ga:date'', PyStr ''20200101''), (Some ''ga:source'', PyStr ''google''),
            (Some ''ga:sessions'', PyInt 3), (Some ''ga:users'', PyInt 4)]
   \<and> get_or (row_metrics two_range_row) []
       = [\<lparr>dr_values = Some [''1'', ''2'']\<rparr>] @ [\<lparr>dr_values = Some [''3'', ''4'']\<rparr>]
   \<and> list_all
       (\<lambda>vs. min (length example_metricHeaders) (length (get_or (dr_values vs) []))
           \<le> length (get_or (dr_values \<lparr>dr_values = Some [''3'', ''4'']\<rparr>) []))
       [\<lparr>dr_values = Some [''1'', ''2'']\<rparr>]
   \<and> build_row example_dimensionHeaders example_metricHeaders
         (two_range_row\<lparr>row_metrics := Some [\<lparr>dr_values = Some [''3'', ''4'']\<rparr>]\<rparr>)
       = Inr [(Some ''ga:date'', PyStr ''20200101''), (Some ''ga:source'', PyStr ''google''),
              (Some ''ga:sessions'', PyInt 3), (Some ''ga:users'', PyInt 4)]"
proof -
  have ms: "get_or (row_metrics two_range_row) []
      = [\<lparr>dr_values = Some [''1'', ''2'']\<rparr>] @ [\<lparr>dr_values = Some [''3'', ''4'']\<rparr>]"
    by (simp add: two_range_row_def get_or_def)
  have cover: "\<forall>vs \<in> set [\<lparr>dr_values = Some [''1'', ''2'']\<rparr>].
         min (length example_metricHeaders) (length (get_or (dr_values vs) []))
           \<le> length (get_or (dr_values \<lparr>dr_values = Some [''3'', ''4'']\<rparr>) [])"
    by (simp add: get_or_def example_metricHeaders_def)
  show ?thesis
    unfolding list_all_iff
    using two_range_row_built ms cover
      build_row_last_value_set [OF two_range_row_built ms cover]
    by blast
qed

text \<open>
  The claim C9 as stated, for every row with more than one value set, fails when the
  last set is shorter: the value \<open>2\<close> of the first set stays in the returned row.
\<close>

theorem build_row_keeps_earlier_value:
  "build_row [] example_metricHeaders ragged_row
     = Inr [(Some ''ga:sessions'', PyInt 3), (Some ''ga:users'', PyInt 2)]
   \<and> build_row [] example_metricHeaders
         (ragged_row\<lparr>row_metrics := Some [\<lparr>dr_values = Some [''3'']\<rparr>]\<rparr>)
       = Inr [(Some ''ga:sessions'', PyInt 3)]"
  by code_simp

subsection \<open>Headers and values of different lengths\<close>




section \<open>Properties of get_response\<close>

subsection \<open>The number of pages\<close>

lemma bit_length_0 [simp]: "bit_length 0 = 0"
  by (simp add: bit_length.simps [of 0])

lemma bit_length_pos: "0 < n \<Longrightarrow> bit_length n = Suc (bit_length (n div 2))"
  by (simp add: bit_length.simps [of n])










text \<open>
  Beyond the row count 13743895347200000 the binary64 quotient can be a whole number
  where the exact one is not, and the last page is left out: for 13743895347200001
  rows the quotient is rounded to 137438953472.
\<close>

lemma math_ceil_div_short:
  "math_ceil_div 13743895347200001 100000 = 137438953472"
proof -
  have "bit_length 137438953472 = 38"
    by (simp add: bit_length_pos)
  then show ?thesis
    by (simp add: math_ceil_div_def Let_def round_half_even_def)
qed

subsection \<open>Offsets and the loop over the pages\<close>



lemma make_offset_list_one:
  "n \<le> 100000 \<or> tok = None \<Longrightarrow> make_offset_list n tok = [0]"
  by (auto simp: make_offset_list_def)


lemma call_get_report_eq:
  "call_get_report e a q t st
     = (map_sum Raised id (fst (get_report e a q t (fst st))),
        (snd (get_report e a q t (fst st)), snd st @ [Fetch t]))"
  by (simp add: call_get_report_def split: prod.splits)



lemma fetch_loop_trace:
  "\<exists>m \<le> length tokens.
     snd (snd (fetch_loop e a q tokens acc st)) = snd st @ map Fetch (take m tokens)"
proof (induction tokens arbitrary: acc st)
  case Nil
  show ?case by simp
next
  case (Cons t ts)
  obtain r w1 where g: "get_report e a q t (fst st) = (r, w1)"
    by (cases "get_report e a q t (fst st)")
  have stop: "\<exists>m \<le> length (t # ts). snd st @ [Fetch t] = snd st @ map Fetch (take m (t # ts))"
    by (rule exI [of _ 1]) simp
  show ?case
  proof (cases r)
    case (Inl err)
    with g stop show ?thesis by (simp add: call_get_report_eq)
  next
    case (Inr resp)
    show ?thesis
    proof (cases "get_ga_data resp")
      case (Inl err)
      with g Inr stop show ?thesis by (simp add: call_get_report_eq)
    next
      case rows: (Inr p)
      from Cons.IH [of "acc @ p" "(w1, snd st @ [Fetch t])"]
      obtain m where "m \<le> length ts"
        and "snd (snd (fetch_loop e a q ts (acc @ p) (w1, snd st @ [Fetch t])))
          = (snd st @ [Fetch t]) @ map Fetch (take m ts)"
        by auto
      then have "Suc m \<le> length (t # ts)
          \<and> snd (snd (fetch_loop e a q (t # ts) acc st))
            = snd st @ map Fetch (take (Suc m) (t # ts))"
        using g Inr rows by (simp add: call_get_report_eq)
      then show ?thesis by blast
    qed
  qed
qed

lemma fetch_loop_single_trace:
  "snd (snd (fetch_loop e a q [t] acc st)) = snd st @ [Fetch t]"
  by (simp add: call_get_report_eq split: prod.splits sum.splits)

lemma get_response_proceeds:
  assumes "get_or (reports resp) [] = report0 # rest"
    and "get_ga_data resp = Inr rws"
    and "rowCount (first_data report0) = Some n"
    and "\<not> is_sampled (first_data report0)"
    and "\<not> (100000 < n \<and> rp_nextPageToken report0 \<noteq> None
            \<and> pagination_overflows n (n - int (length rws)))"
  shows "get_response e a resp q st =
     (case fetch_loop e a q (map str_int (make_offset_list n (rp_nextPageToken report0))) [] st of
        (Inl err, st') \<Rightarrow> (Inl err, st')
      | (Inr completeData, st') \<Rightarrow> (rename_columns (pd_DataFrame completeData), st'))"
  using assms by (auto simp: get_response_def first_data_def Let_def)

lemma get_response_sampled:
  assumes "get_or (reports resp) [] = report0 # rest"
    and "is_sampled (first_data report0)"
  shows "get_response e a resp q st =
     (Inl (case get_ga_data resp of
             Inl err \<Rightarrow> err
           | Inr rws \<Rightarrow>
               (case rowCount (first_data report0) of
                  None \<Rightarrow> TypeError
                | Some n \<Rightarrow> SampledDataError)), st)"
  using assms
  by (simp add: get_response_def first_data_def Let_def split: sum.splits option.splits)

lemma get_response_trace_prefix:
  assumes run: "get_response e a resp q st =
     (case fetch_loop e a q tokens [] st of
        (Inl err, st') \<Rightarrow> (Inl err, st')
      | (Inr completeData, st') \<Rightarrow> (rename_columns (pd_DataFrame completeData), st'))"
  shows "snd (snd (get_response e a resp q st)) = snd (snd (fetch_loop e a q tokens [] st))"
  unfolding run by (cases "fetch_loop e a q tokens [] st") (auto split: sum.splits)




lemma str_int_offsets:
  "str_int 0 = ''0''" "str_int 100000 = ''100000''" "str_int 200000 = ''200000''"
  by (simp_all add: str_int_def digit_char_def)












subsection \<open>A single segment\<close>

text \<open>
  Claim C3, as amended. For a first page that reports at most 100000 rows or carries
  no continuation token, is extracted without error and is not sampled, the offset
  list is \<open>[0]\<close> and the loop of \<open>get_response\<close> makes exactly one fetch, with token
  \<open>0\<close>. \<open>get_dataframes\<close> has fetched that page before calling \<open>get_response\<close>, so an
  attempt fetches page \<open>0\<close> twice.
\<close>

theorem get_response_single_page:
  assumes first: "get_or (reports resp) [] = report0 # rest"
    and count: "rowCount (first_data report0) = Some n"
    and small: "n \<le> 100000 \<or> rp_nextPageToken report0 = None"
    and extracted: "get_ga_data resp = Inr page0"
    and unsampled: "\<not> is_sampled (first_data report0)"
  shows "make_offset_list n (rp_nextPageToken report0) = [0]
     \<and> snd (snd (get_response e a resp q st)) = snd st @ [Fetch ''0'']
     \<and> (initialize_analyticsreporting e (fst st0) = (Inr a, w1)
          \<longrightarrow> get_report e a q ''0'' w1 = (Inr resp, w2)
          \<longrightarrow> snd (snd (attempt e q st0)) = snd st0 @ [Init, Fetch ''0'', Fetch ''0''])"
proof -
  have offsets: "make_offset_list n (rp_nextPageToken report0) = [0]"
    using small by (rule make_offset_list_one)
  have fits: "\<not> (100000 < n \<and> rp_nextPageToken report0 \<noteq> None
            \<and> pagination_overflows n (n - int (length page0)))"
    using small by auto
  have one: "snd (snd (get_response e a resp q s)) = snd s @ [Fetch ''0'']" for s
  proof -
    have "get_response e a resp q s =
       (case fetch_loop e a q [''0''] [] s of
          (Inl err, st') \<Rightarrow> (Inl err, st')
        | (Inr completeData, st') \<Rightarrow> (rename_columns (pd_DataFrame completeData), st'))"
      using get_response_proceeds [OF first extracted count unsampled fits, of e a q s]
      by (simp add: offsets str_int_offsets)
    then have "snd (snd (get_response e a resp q s)) = snd (snd (fetch_loop e a q [''0''] [] s))"
      by (rule get_response_trace_prefix)
    also have "\<dots> = snd s @ [Fetch ''0'']"
      by (rule fetch_loop_single_trace)
    finally show ?thesis .
  qed
  have "snd (snd (attempt e q st0)) = snd st0 @ [Init, Fetch ''0'', Fetch ''0'']"
    if "initialize_analyticsreporting e (fst st0) = (Inr a, w1)"
      and "get_report e a q ''0'' w1 = (Inr resp, w2)"
    using that one [of "(w2, snd st0 @ [Init, Fetch ''0''])"]
    by (simp add: attempt_def call_initialize_def call_get_report_eq)
  with offsets one [of st] show ?thesis by blast
qed

lemma example_page_first:
  "get_or (reports example_page) [] = hd (get_or (reports example_page) []) # []"
  "rowCount (first_data (hd (get_or (reports example_page) []))) = Some 1"
  "rp_nextPageToken (hd (get_or (reports example_page) [])) = None"
  "\<not> is_sampled (first_data (hd (get_or (reports example_page) [])))"
  by (simp_all add: example_page_def get_or_def first_data_def is_sampled_def)

theorem get_response_single_page_witness:
  "rowCount (first_data (hd (get_or (reports example_page) []))) = Some 1
   \<and> (1 :: int) \<le> 100000
   \<and> get_ga_data example_page = Inr example_rows
   \<and> \<not> is_sampled (first_data (hd (get_or (reports example_page) [])))
   \<and> make_offset_list 1 (rp_nextPageToken (hd (get_or (reports example_page) []))) = [0]
   \<and> snd (snd (get_response (steady_env example_page) () example_page () ((), [])))
       = [Fetch ''0'']
   \<and> snd (snd (attempt (steady_env example_page) () ((), [])))
       = [Init, Fetch ''0'', Fetch ''0'']"
proof -
  have small: "(1 :: int) \<le> 100000
      \<or> rp_nextPageToken (hd (get_or (reports example_page) [])) = None"
    by simp
  have init: "initialize_analyticsreporting (steady_env example_page) (fst ((), []))
      = (Inr (), ())"
    by (simp add: steady_env_def)
  have fetch: "get_report (steady_env example_page) () () ''0'' () = (Inr example_page, ())"
    by (simp add: steady_env_def)
  from get_response_single_page [OF example_page_first(1) example_page_first(2) small
      example_page_rows example_page_first(4),
      of "steady_env example_page" "()" "()" "((), [])" "((), [])" "()" "()"]
  show ?thesis
    using init fetch example_page_first(2) example_page_first(4) example_page_rows
    by simp
qed

text \<open>
  The claim C3 as stated, one fetch in total for the query, fails: for a page of one
  row the trace of \<open>get_dataframes\<close> holds two fetches.
\<close>

lemma example_page_fits:
  "\<not> (100000 < (1 :: int)
       \<and> rp_nextPageToken (hd (get_or (reports example_page) [])) \<noteq> None
       \<and> pagination_overflows 1 (1 - int (length example_rows)))"
  by simp

lemma example_table_made: "rename_columns (pd_DataFrame example_rows) = Inr example_table"
  by (simp add: rename_columns_def pd_DataFrame_def example_rows_def example_table_def
      first_seen_def strip_ga_def)

theorem get_dataframes_fetches_twice:
  "get_dataframes (steady_env example_page) () ((), [])
     = (Inr (Some example_table), ((), [Init, Fetch ''0'', Fetch ''0'']))"
proof -
  have "get_response (steady_env example_page) () example_page () ((), [Init, Fetch ''0''])
      = (Inr example_table, ((), [Init, Fetch ''0'', Fetch ''0'']))"
    by (simp add: get_response_proceeds [OF example_page_first(1) example_page_rows
          example_page_first(2) example_page_first(4) example_page_fits] make_offset_list_def
        example_page_first(3) str_int_offsets call_get_report_eq steady_env_def
        example_page_rows example_table_made)
  then have "attempt (steady_env example_page) () ((), [])
      = (Inr example_table, ((), [Init, Fetch ''0'', Fetch ''0'']))"
    by (simp add: attempt_def call_initialize_def call_get_report_eq steady_env_def)
  then show ?thesis
    by (simp add: get_dataframes_def upt_rec [of 0])
qed

subsection \<open>Sampled data\<close>

text \<open>
  Claim C2, as amended. For a first page whose data have a non-empty
  \<open>samplesReadCounts\<close> or \<open>samplingSpaceSizes\<close>, \<open>get_response\<close> returns no table and
  makes no fetch: the world and the trace are unchanged. It raises SampledDataError
  when the first page is extracted without error and the data have a \<open>rowCount\<close>;
  otherwise it raises the error of the extraction, or TypeError for the missing
  \<open>rowCount\<close>, since both come before the sampling test.
\<close>

theorem get_response_sampled_aborts:
  assumes "get_or (reports resp) [] = report0 # rest"
    and "is_sampled (first_data report0)"
  shows "get_response e a resp q st =
     (Inl (case get_ga_data resp of
             Inl err \<Rightarrow> err
           | Inr page0 \<Rightarrow>
               (case rowCount (first_data report0) of
                  None \<Rightarrow> TypeError
                | Some n \<Rightarrow> SampledDataError)), st)"
  using assms by (rule get_response_sampled)

lemma sampled_page_first:
  "get_or (reports sampled_page) [] = hd (get_or (reports sampled_page) []) # []"
  "is_sampled (first_data (hd (get_or (reports sampled_page) [])))"
  "rowCount (first_data (hd (get_or (reports sampled_page) []))) = Some 1"
  by (simp_all add: sampled_page_def get_or_def first_data_def is_sampled_def)

lemma sampled_page_extracted:
  "get_ga_data sampled_page = Inr [[(Some ''ga:sessions'', PyInt 12)]]"
  by code_simp

theorem get_response_sampled_aborts_witness:
  "is_sampled (first_data (hd (get_or (reports sampled_page) [])))
   \<and> get_ga_data sampled_page = Inr [[(Some ''ga:sessions'', PyInt 12)]]
   \<and> get_response (steady_env sampled_page) () sampled_page () ((), [])
       = (Inl SampledDataError, ((), []))"
  using get_response_sampled_aborts [OF sampled_page_first(1) sampled_page_first(2),
      of "steady_env sampled_page" "()" "()" "((), [])"]
    sampled_page_first(2) sampled_page_first(3) sampled_page_extracted
  by simp

lemma sampled_bad_page_first:
  "get_or (reports sampled_bad_page) [] = hd (get_or (reports sampled_bad_page) []) # []"
  "is_sampled (first_data (hd (get_or (reports sampled_bad_page) [])))"
  by (simp_all add: sampled_bad_page_def get_or_def first_data_def is_sampled_def)

lemma sampled_bad_page_extracted: "get_ga_data sampled_bad_page = Inl ValueError"
  by code_simp

text \<open>
  The claim C2 as stated, SampledDataError for every sampled first page, fails for a
  sampled page with a metric value that is not a number: ValueError is raised.
\<close>

theorem get_response_sampled_value_error:
  "is_sampled (first_data (hd (get_or (reports sampled_bad_page) [])))
   \<and> get_response (steady_env sampled_bad_page) () sampled_bad_page () ((), [])
       = (Inl ValueError, ((), []))"
  using get_response_sampled [OF sampled_bad_page_first(1) sampled_bad_page_first(2),
      of "steady_env sampled_bad_page" "()" "()" "((), [])"]
    sampled_bad_page_first(2) sampled_bad_page_extracted
  by simp
section \<open>Properties of get_dataframes\<close>

lemma sleeps_append [simp]: "sleeps (es @ es') = sleeps es @ sleeps es'"
  by (simp add: sleeps_def)

lemma attempts_started_append [simp]:
  "attempts_started (es @ es') = attempts_started es + attempts_started es'"
  by (simp add: attempts_started_def)

lemma sleeps_simps [simp]:
  "sleeps [] = []" "sleeps (Init # es) = sleeps es" "sleeps (Fetch t # es) = sleeps es"
  "sleeps (Sleep d # es) = d # sleeps es"
  by (simp_all add: sleeps_def)

lemma attempts_started_simps [simp]:
  "attempts_started [] = 0" "attempts_started (Init # es) = Suc (attempts_started es)"
  "attempts_started (Fetch t # es) = attempts_started es"
  "attempts_started (Sleep d # es) = attempts_started es"
  by (simp_all add: attempts_started_def)

lemma fetches_quiet [simp]:
  "sleeps (map Fetch ts) = []" "attempts_started (map Fetch ts) = 0"
  by (induction ts) simp_all

subsection \<open>The exceptions that reach the handler\<close>

lemma metric_loop_error: "metric_loop ps d = Inl err \<Longrightarrow> err = ValueError"
proof (induction ps arbitrary: d)
  case Nil
  then show ?case by simp
next
  case (Cons p ps)
  obtain mh v where p: "p = (mh, v)" by (cases p)
  show ?case
  proof (cases "convert_metric v")
    case (Inl e)
    with Cons.prems p show ?thesis by (simp add: convert_metric_error)
  next
    case (Inr x)
    with Cons p show ?thesis by simp
  qed
qed

lemma date_range_loop_error:
  "date_range_loop mhs vss d = Inl err \<Longrightarrow> err = TypeError \<or> err = ValueError"
proof (induction vss arbitrary: d)
  case Nil
  then show ?case by simp
next
  case (Cons vs vss)
  show ?case
  proof (cases "dr_values vs")
    case None
    with Cons.prems show ?thesis by simp
  next
    case (Some vals)
    show ?thesis
    proof (cases "metric_loop (zip mhs vals) d")
      case (Inl e)
      with Cons.prems Some show ?thesis by (simp add: metric_loop_error)
    next
      case (Inr d1)
      with Cons Some show ?thesis by simp
    qed
  qed
qed

lemma build_row_error:
  "build_row dhs mhs row = Inl err \<Longrightarrow> err = TypeError \<or> err = ValueError"
  unfolding build_row_def by (rule date_range_loop_error)

lemma rows_loop_error:
  "rows_loop dhs mhs rs acc = Inl err \<Longrightarrow> err = TypeError \<or> err = ValueError"
proof (induction rs arbitrary: acc)
  case Nil
  then show ?case by simp
next
  case (Cons row rs)
  show ?case
  proof (cases "build_row dhs mhs row")
    case (Inl e)
    with Cons.prems show ?thesis by (simp add: build_row_error)
  next
    case (Inr d)
    with Cons show ?thesis by simp
  qed
qed

lemma reports_loop_error:
  "reports_loop rps acc = Inl err \<Longrightarrow> err = TypeError \<or> err = ValueError"
proof (induction rps arbitrary: acc)
  case Nil
  then show ?case by simp
next
  case (Cons rp rps)
  show ?case
  proof (cases "rows_loop (dimensionHeaders_of rp) (metricHeaders_of rp) (rows_of rp) acc")
    case (Inl e)
    with Cons.prems show ?thesis by (simp add: rows_loop_error)
  next
    case (Inr out1)
    with Cons show ?thesis by simp
  qed
qed

lemma get_ga_data_error:
  "get_ga_data resp = Inl err \<Longrightarrow> err = TypeError \<or> err = ValueError"
  unfolding get_ga_data_def by (rule reports_loop_error)

lemma fetch_loop_error:
  "fetch_loop e a q tokens acc st = (Inl err, st') \<Longrightarrow> err \<noteq> HTTPError"
proof (induction tokens arbitrary: acc st)
  case Nil
  then show ?case by simp
next
  case (Cons t ts)
  obtain r w1 where g: "get_report e a q t (fst st) = (r, w1)"
    by (cases "get_report e a q t (fst st)")
  show ?case
  proof (cases r)
    case (Inl se)
    with g Cons.prems show ?thesis by (auto simp: call_get_report_eq)
  next
    case (Inr resp)
    show ?thesis
    proof (cases "get_ga_data resp")
      case (Inl e')
      with g Inr Cons.prems get_ga_data_error [of resp e'] show ?thesis
        by (auto simp: call_get_report_eq)
    next
      case rows: (Inr pg)
      with g Inr Cons.prems have "fetch_loop e a q ts (acc @ pg) (w1, snd st @ [Fetch t])
          = (Inl err, st')"
        by (simp add: call_get_report_eq)
      then show ?thesis by (rule Cons.IH)
    qed
  qed
qed

lemma rename_columns_error: "rename_columns df = Inl err \<Longrightarrow> err = AttributeError"
  by (simp add: rename_columns_def split: if_splits)

lemma get_response_error:
  assumes "get_response e a resp q st = (Inl err, st')"
  shows "err \<noteq> HTTPError"
proof (cases "get_or (reports resp) []")
  case Nil
  with assms show ?thesis by (auto simp: get_response_def)
next
  case (Cons report0 rest)
  show ?thesis
  proof (cases "get_ga_data resp")
    case (Inl e')
    with Cons assms get_ga_data_error [of resp e'] show ?thesis
      by (auto simp: get_response_def Let_def)
  next
    case page: (Inr page0)
    show ?thesis
    proof (cases "rowCount (first_data report0)")
      case None
      with Cons page assms show ?thesis
        by (auto simp: get_response_def Let_def first_data_def)
    next
      case (Some n)
      show ?thesis
      proof (cases "is_sampled (first_data report0)")
        case True
        with Cons page Some assms show ?thesis
          by (auto simp: get_response_def Let_def first_data_def)
      next
        case False
        show ?thesis
        proof (cases "100000 < n \<and> rp_nextPageToken report0 \<noteq> None
            \<and> pagination_overflows n (n - int (length page0))")
          case True
          with Cons page Some False assms show ?thesis
            by (auto simp: get_response_def Let_def first_data_def)
        next
          case fits: False
          let ?tokens = "map str_int (make_offset_list n (rp_nextPageToken report0))"
          obtain r s where loop: "fetch_loop e a q ?tokens [] st = (r, s)"
            by (cases "fetch_loop e a q ?tokens [] st")
          show ?thesis
          proof (cases r)
            case (Inl e')
            with loop assms fetch_loop_error [of e a q ?tokens "[]" st e' s] show ?thesis
              unfolding get_response_proceeds [OF Cons page Some False fits] by auto
          next
            case (Inr cd)
            with loop assms rename_columns_error [of "pd_DataFrame cd" err] show ?thesis
              unfolding get_response_proceeds [OF Cons page Some False fits] by auto
          qed
        qed
      qed
    qed
  qed
qed

lemma attempt_error:
  assumes "attempt e q st = (Inl err, st')"
  shows "err \<noteq> HTTPError"
proof -
  obtain r w1 where i: "initialize_analyticsreporting e (fst st) = (r, w1)"
    by (cases "initialize_analyticsreporting e (fst st)")
  show ?thesis
  proof (cases r)
    case (Inl se)
    with i assms show ?thesis by (auto simp: attempt_def call_initialize_def)
  next
    case (Inr a)
    obtain r2 w2 where g: "get_report e a q ''0'' w1 = (r2, w2)"
      by (cases "get_report e a q ''0'' w1")
    show ?thesis
    proof (cases r2)
      case (Inl se)
      with i Inr g assms show ?thesis
        by (auto simp: attempt_def call_initialize_def call_get_report_eq)
    next
      case resp: (Inr resp)
      with i Inr g assms
      have "get_response e a resp q (w2, snd st @ [Init, Fetch ''0'']) = (Inl err, st')"
        by (simp add: attempt_def call_initialize_def call_get_report_eq)
      then show ?thesis by (rule get_response_error)
    qed
  qed
qed

subsection \<open>One attempt\<close>

lemma get_response_trace:
  "\<exists>ts. snd (snd (get_response e a resp q st)) = snd st @ map Fetch ts"
proof -
  have same: "\<exists>ts. snd st = snd st @ map Fetch ts"
    by (rule exI [of _ "[]"]) simp
  show ?thesis
  proof (cases "get_or (reports resp) []")
    case Nil
    with same show ?thesis by (simp add: get_response_def)
  next
    case (Cons report0 rest)
    show ?thesis
    proof (cases "get_ga_data resp")
      case (Inl err)
      with Cons same show ?thesis by (simp add: get_response_def Let_def)
    next
      case (Inr page0)
      show ?thesis
      proof (cases "rowCount (first_data report0)")
        case None
        with Cons Inr same show ?thesis
          by (simp add: get_response_def Let_def first_data_def)
      next
        case (Some n)
        show ?thesis
        proof (cases "is_sampled (first_data report0)")
          case True
          with Cons Inr Some same show ?thesis
            by (simp add: get_response_def Let_def first_data_def)
        next
          case False
          show ?thesis
          proof (cases "100000 < n \<and> rp_nextPageToken report0 \<noteq> None
              \<and> pagination_overflows n (n - int (length page0))")
            case True
            with Cons Inr Some False same show ?thesis
              by (simp add: get_response_def Let_def first_data_def)
          next
            case fits: False
            let ?tokens = "map str_int (make_offset_list n (rp_nextPageToken report0))"
            from fetch_loop_trace [of ?tokens e a q "[]" st] obtain m
              where "snd (snd (fetch_loop e a q ?tokens [] st))
                = snd st @ map Fetch (take m ?tokens)"
              by blast
            then have "snd (snd (get_response e a resp q st))
                = snd st @ map Fetch (take m ?tokens)"
              using get_response_trace_prefix
                [OF get_response_proceeds [OF Cons Inr Some False fits], of e a q st]
              by simp
            then show ?thesis by blast
          qed
        qed
      qed
    qed
  qed
qed

lemma attempt_trace:
  "\<exists>es. snd (snd (attempt e q st)) = snd st @ es \<and> sleeps es = []
     \<and> attempts_started es = 1"
proof -
  obtain r w1 where i: "initialize_analyticsreporting e (fst st) = (r, w1)"
    by (cases "initialize_analyticsreporting e (fst st)")
  show ?thesis
  proof (cases r)
    case (Inl err)
    with i have "snd (snd (attempt e q st)) = snd st @ [Init]"
      by (simp add: attempt_def call_initialize_def)
    then show ?thesis by (intro exI [of _ "[Init]"]) simp
  next
    case (Inr a)
    obtain r2 w2 where g: "get_report e a q ''0'' w1 = (r2, w2)"
      by (cases "get_report e a q ''0'' w1")
    show ?thesis
    proof (cases r2)
      case (Inl err)
      with i Inr g have "snd (snd (attempt e q st)) = snd st @ [Init, Fetch ''0'']"
        by (simp add: attempt_def call_initialize_def call_get_report_eq)
      then show ?thesis by (intro exI [of _ "[Init, Fetch ''0'']"]) simp
    next
      case resp: (Inr resp)
      from get_response_trace [of e a resp q "(w2, snd st @ [Init, Fetch ''0''])"]
      obtain ts where "snd (snd (get_response e a resp q (w2, snd st @ [Init, Fetch ''0''])))
          = (snd st @ [Init, Fetch ''0'']) @ map Fetch ts"
        by auto
      with i Inr g resp have "snd (snd (attempt e q st))
          = snd st @ ([Init, Fetch ''0''] @ map Fetch ts)"
        by (simp add: attempt_def call_initialize_def call_get_report_eq)
      then show ?thesis by (intro exI [of _ "[Init, Fetch ''0''] @ map Fetch ts"]) simp
    qed
  qed
qed

lemma attempt_trace_result:
  assumes "attempt e q st = (r, st')"
  obtains es where "snd st' = snd st @ es" "sleeps es = []" "attempts_started es = 1"
  using attempt_trace [of e q st] assms by auto

lemma first_fetch_fails:
  assumes "initialize_analyticsreporting e (fst st) = (Inr a, w1)"
    and "get_report e a q ''0'' w1 = (Inl err, w2)"
  shows "attempt e q st = (Inl (Raised err), (w2, snd st @ [Init, Fetch ''0'']))"
  using assms by (simp add: attempt_def call_initialize_def call_get_report_eq)

text \<open>
  No exception of an attempt is an instance of the class that the clause of line 252
  names, so the handler is never entered: \<open>get_dataframes\<close> is its first attempt.
\<close>

lemma retry_loop_first:
  "retry_loop e q (n # ns) st =
     (case attempt e q st of
        (Inr df, st') \<Rightarrow> (Inr (Some df), st')
      | (Inl err, st') \<Rightarrow> (Inl err, st'))"
proof -
  obtain r st' where att: "attempt e q st = (r, st')"
    by (cases "attempt e q st")
  show ?thesis
  proof (cases r)
    case (Inl err)
    with att have "err \<noteq> HTTPError" by (auto dest: attempt_error)
    with att Inl show ?thesis by simp
  next
    case (Inr df)
    with att show ?thesis by simp
  qed
qed

lemma get_dataframes_first:
  "get_dataframes e q st =
     (case attempt e q st of
        (Inr df, st') \<Rightarrow> (Inr (Some df), st')
      | (Inl err, st') \<Rightarrow> (Inl err, st'))"
proof -
  have "[0..<5] = 0 # [1..<5]" by (simp add: upt_rec)
  then show ?thesis
    unfolding get_dataframes_def by (simp only: retry_loop_first)
qed

subsection \<open>An error of the service\<close>

text \<open>
  Claim C5. When the attempt of \<open>get_dataframes\<close> fails, whatever the error,
  \<open>get_dataframes\<close> raises that error; the trace it leaves is that of the one attempt:
  it starts one attempt and holds no sleep. In particular, when the fetch of the first
  page fails with an error of the service, \<open>get_dataframes\<close> raises that error after
  one call to build the service object and one fetch.
\<close>

theorem get_dataframes_error_propagates:
  "(attempt e q st = (Inl err, st') \<longrightarrow>
      get_dataframes e q st = (Inl err, st')
      \<and> (\<exists>es. snd st' = snd st @ es \<and> sleeps es = [] \<and> attempts_started es = 1))
   \<and> (initialize_analyticsreporting e (fst st) = (Inr a, w1)
        \<longrightarrow> get_report e a q ''0'' w1 = (Inl se, w2)
        \<longrightarrow> get_dataframes e q st = (Inl (Raised se), (w2, snd st @ [Init, Fetch ''0''])))"
proof (intro conjI impI)
  assume fails: "attempt e q st = (Inl err, st')"
  then show "get_dataframes e q st = (Inl err, st')"
    by (simp add: get_dataframes_first)
  from fails show "\<exists>es. snd st' = snd st @ es \<and> sleeps es = [] \<and> attempts_started es = 1"
    by (rule attempt_trace_result) blast
next
  assume "initialize_analyticsreporting e (fst st) = (Inr a, w1)"
    and "get_report e a q ''0'' w1 = (Inl se, w2)"
  then have "attempt e q st = (Inl (Raised se), (w2, snd st @ [Init, Fetch ''0'']))"
    by (rule first_fetch_fails)
  then show "get_dataframes e q st = (Inl (Raised se), (w2, snd st @ [Init, Fetch ''0'']))"
    by (simp add: get_dataframes_first)
qed

lemma failing_attempt:
  "attempt (failing_env err) () ((), []) = (Inl (Raised err), ((), [Init, Fetch ''0'']))"
  by (simp add: attempt_def call_initialize_def call_get_report_eq failing_env_def)

theorem get_dataframes_error_propagates_witness:
  "attempt (failing_env (HttpError ''forbidden'')) () ((), [])
     = (Inl (Raised (HttpError ''forbidden'')), ((), [Init, Fetch ''0'']))
   \<and> initialize_analyticsreporting (failing_env (HttpError ''forbidden'')) (fst ((), []))
       = (Inr (), ())
   \<and> get_report (failing_env (HttpError ''forbidden'')) () () ''0'' ()
       = (Inl (HttpError ''forbidden''), ())
   \<and> ''forbidden'' \<notin> set retryable_reasons
   \<and> get_dataframes (failing_env (HttpError ''forbidden'')) () ((), [])
       = (Inl (Raised (HttpError ''forbidden'')), ((), [Init, Fetch ''0'']))
   \<and> (\<exists>es. [Init, Fetch ''0''] = [] @ es \<and> sleeps es = [] \<and> attempts_started es = 1)"
  using get_dataframes_error_propagates
      [of "failing_env (HttpError ''forbidden'')" "()" "((), [])"
          "Raised (HttpError ''forbidden'')" "((), [Init, Fetch ''0''])" "()" "()"
          "HttpError ''forbidden''" "()"]
    failing_attempt [of "HttpError ''forbidden''"]
  by (simp add: retryable_reasons_def failing_env_def)

subsection \<open>A rate limit\<close>

text \<open>
  Claim C6 does not hold of the code. The service answers the first four fetches with
  a rate limit, for which the client library raises its \<open>HttpError\<close> with the reason
  \<open>userRateLimitExceeded\<close>, and would answer every later fetch with the page.
  \<open>get_dataframes\<close> raises that error after the first fetch: it does not sleep, makes no
  second attempt and returns no table. The clause of line 252 names the \<^verbatim>\<open>HTTPError\<close>
  of \<^verbatim>\<open>urllib.error\<close>; the \<^verbatim>\<open>HttpError\<close> of the client library, imported in line 12, is
  not caught.
\<close>

theorem get_dataframes_rate_limit_not_retried:
  "''userRateLimitExceeded'' \<in> set retryable_reasons
   \<and> get_dataframes (flaky_env 4 example_page) () (0, [])
       = (Inl (Raised (HttpError ''userRateLimitExceeded'')), (1, [Init, Fetch ''0'']))"
proof -
  have "initialize_analyticsreporting (flaky_env 4 example_page) (fst (0, [])) = (Inr (), 0)"
    by (simp add: flaky_env_def)
  moreover have "get_report (flaky_env 4 example_page) () () ''0'' 0
      = (Inl (HttpError ''userRateLimitExceeded''), 1)"
    by (simp add: flaky_env_def)
  ultimately have "attempt (flaky_env 4 example_page) () (0, [])
      = (Inl (Raised (HttpError ''userRateLimitExceeded'')), (1, [] @ [Init, Fetch ''0'']))"
    using first_fetch_fails [of "flaky_env 4 example_page" "(0, [])" "()" 0 "()"
        "HttpError ''userRateLimitExceeded''" 1]
    by simp
  then have "get_dataframes (flaky_env 4 example_page) () (0, [])
      = (Inl (Raised (HttpError ''userRateLimitExceeded'')), (1, [Init, Fetch ''0'']))"
    by (simp add: get_dataframes_first)
  then show ?thesis by (simp add: retryable_reasons_def)
qed

end
